theory Spec2Isabelle
  imports Main "HOL-Library.Word"
begin

section \<open>The CFStream endpoint of gRPC (src/core/lib/iomgr/endpoint_cfstream.cc)\<close>

text \<open>
  The endpoint is one heap object that is mutated by its entry points (\<open>CFStreamRead\<close>,
  \<open>CFStreamWrite\<close>, \<open>CFStreamShutdown\<close>, \<open>CFStreamDestroy\<close>) and by the continuations
  the collaborators call back (\<open>CFStreamReadAllocationDone\<close>, \<open>ReadAction\<close>,
  \<open>WriteAction\<close>, \<open>err_cb\<close>). Every function of the file is a function from the world
  to a result: the world it returns, or the fault that stopped it (a failed \<open>GPR_ASSERT\<close>,
  a null or dangling pointer that is dereferenced, \<open>abort()\<close>) with the world at that moment.
  Each call into a collaborator, each store into the endpoint after its construction and
  each reference count change is appended to the world's trace in program order, so that
  statements about order are statements about the trace. What the diagnostic logging
  (\<open>gpr_log\<close>) prints is not modelled. Of the blocks that run only when \<open>grpc_tcp_trace\<close>
  is enabled, the one at the end of \<open>WriteAction\<close> comes after the write's reference has
  been released and is modelled by the read of the endpoint it makes. The others come
  before any release: those of \<open>CFStreamRef\<close> and \<open>CFStreamUnref\<close> read the count that the
  next statement reads, those of \<open>CallReadCb\<close> and \<open>CallWriteCb\<close> read the closure and the
  buffers of the pending callback, that of \<open>CFStreamWrite\<close> the caller's buffers, that of
  \<open>CFStreamShutdown\<close> nothing but its arguments; they are left out.
\<close>

subsection \<open>Data\<close>

type_synonym byte = "8 word"
type_synonym grpc_slice = "byte list"
type_synonym grpc_slice_buffer = "grpc_slice list"

text \<open>Pointers to objects of the caller and of the platform are addresses.\<close>

type_synonym grpc_closure = nat
type_synonym buffer_ptr = nat
type_synonym CFStream_handle = nat
type_synonym CFErrorRef = nat

text \<open>
  \<open>grpc_millis\<close> is \<open>int64_t\<close>: a time or a deadline in milliseconds, a 64-bit word whose
  value is read by \<open>sint\<close>.
\<close>

type_synonym grpc_millis = "64 word"

text \<open>A C string: where it is stored and what it holds.\<close>

record cstring =
  addr :: nat
  chars :: string

datatype grpc_error_ints = GRPC_ERROR_INT_GRPC_STATUS
datatype grpc_error_strs = GRPC_ERROR_STR_TARGET_ADDRESS

record grpc_error =
  description :: string
  cf_cause :: "CFErrorRef option"
  ints :: "(grpc_error_ints \<times> int) list"
  strs :: "(grpc_error_strs \<times> string) list"

text \<open>\<open>grpc_error*\<close>: \<open>GRPC_ERROR_NONE\<close> is the null pointer.\<close>

type_synonym grpc_error_ptr = "grpc_error option"

record grpc_resource_user =
  quota :: nat
  user_name :: string

record CFStreamEndpoint =
  refcount :: int
  read_stream :: CFStream_handle
  write_stream :: CFStream_handle
  stream_sync :: nat
  read_cb :: "grpc_closure option"
  write_cb :: "grpc_closure option"
  read_slices :: "buffer_ptr option"
  write_slices :: "buffer_ptr option"
  peer_string :: cstring
  resource_user :: grpc_resource_user
  timer_armed :: bool
  total_bytes_read :: "32 word"

datatype field_write =
    W_read_cb "grpc_closure option"
  | W_read_slices "buffer_ptr option"
  | W_write_cb "grpc_closure option"
  | W_write_slices "buffer_ptr option"
  | W_timer_armed bool
  | W_total_bytes_read "32 word"

datatype event =
    Store field_write
  | Ref string
  | Unref string
  | ClosureSched grpc_closure grpc_error_ptr
  | ReadStreamRead CFStream_handle nat int
  | WriteStreamWrite CFStream_handle grpc_slice int
  | ReadStreamClose CFStream_handle
  | WriteStreamClose CFStream_handle
  | CFRetain CFStream_handle
  | CFRelease CFStream_handle
  | MuLock
  | MuUnlock
  | TimerInit grpc_millis
  | TimerCancel
  | NotifyOnRead
  | NotifyOnWrite
  | HandleShutdown grpc_error_ptr
  | RunOnQueue
  | HandleRef nat
  | HandleUnref nat
  | ResourceUserCreate grpc_resource_user
  | ResourceUserAllocSlices nat nat buffer_ptr
  | ResourceUserShutdown grpc_resource_user
  | ResourceUserUnref grpc_resource_user

record world =
  ep_mem :: "CFStreamEndpoint option"
  bufs :: "buffer_ptr \<Rightarrow> grpc_slice_buffer"
  allocated :: "nat list"
  pending_timer :: "grpc_millis option"
  trace :: "event list"
  grpc_tcp_trace :: bool

datatype fault = AssertionFailed | NullDereference | UseAfterFree | ProcessAbort

datatype result = Return world | Fault fault world

fun final :: "result \<Rightarrow> world" where
  "final (Return w) = w"
| "final (Fault f w) = w"


subsection \<open>Sequencing\<close>

fun block :: "(world \<Rightarrow> result) list \<Rightarrow> world \<Rightarrow> result" where
  "block [] w = Return w"
| "block (s # ss) w = (case s w of Return w' \<Rightarrow> block ss w' | Fault f w' \<Rightarrow> Fault f w')"

definition skip :: "world \<Rightarrow> result" where
  "skip w = Return w"

definition emit :: "event \<Rightarrow> world \<Rightarrow> result" where
  "emit ev w = Return (w\<lparr>trace := trace w @ [ev]\<rparr>)"

text \<open>A \<open>grpc_tcp_trace\<close> block runs when the trace flag is enabled.\<close>

definition when_tracing :: "(world \<Rightarrow> result) \<Rightarrow> world \<Rightarrow> result" where
  "when_tracing s w = (if grpc_tcp_trace w then s w else Return w)"

text \<open>Every access through the endpoint pointer needs the endpoint to be allocated.\<close>

definition with_ep :: "(CFStreamEndpoint \<Rightarrow> world \<Rightarrow> result) \<Rightarrow> world \<Rightarrow> result" where
  "with_ep k w = (case ep_mem w of None \<Rightarrow> Fault UseAfterFree w | Some e \<Rightarrow> k e w)"

fun apply_write :: "field_write \<Rightarrow> CFStreamEndpoint \<Rightarrow> CFStreamEndpoint" where
  "apply_write (W_read_cb v) e = e\<lparr>read_cb := v\<rparr>"
| "apply_write (W_read_slices v) e = e\<lparr>read_slices := v\<rparr>"
| "apply_write (W_write_cb v) e = e\<lparr>write_cb := v\<rparr>"
| "apply_write (W_write_slices v) e = e\<lparr>write_slices := v\<rparr>"
| "apply_write (W_timer_armed v) e = e\<lparr>timer_armed := v\<rparr>"
| "apply_write (W_total_bytes_read v) e = e\<lparr>total_bytes_read := v\<rparr>"

definition store :: "field_write \<Rightarrow> world \<Rightarrow> result" where
  "store fw = with_ep (\<lambda>e w.
     Return (w\<lparr>ep_mem := Some (apply_write fw e), trace := trace w @ [Store fw]\<rparr>))"

subsection \<open>Collaborators\<close>

text \<open>
  Modelled from the spec: the slice buffer operations of \<open>slice_buffer.cc\<close>, which is not
  under src/. A buffer sequence is an ordered collection of byte ranges; \<open>count\<close> is the
  number of regions and \<open>length\<close> the number of bytes; a reset empties the sequence;
  \<open>trim_end\<close> removes bytes from the end; \<open>take_first\<close> removes the first region
  (the sequence must not be empty) and \<open>undo_take_first\<close> puts a region back at the
  front; \<open>grpc_slice_sub s b e\<close> is the byte range of \<open>s\<close> from \<open>b\<close> up to \<open>e\<close>.
\<close>

definition slice_buffer_length :: "grpc_slice_buffer \<Rightarrow> nat" where
  "slice_buffer_length sb = sum_list (map length sb)"

definition set_buf :: "buffer_ptr \<Rightarrow> grpc_slice_buffer \<Rightarrow> world \<Rightarrow> result" where
  "set_buf p sb w = Return (w\<lparr>bufs := (bufs w)(p := sb)\<rparr>)"

definition grpc_slice_buffer_reset_and_unref_internal :: "buffer_ptr option \<Rightarrow> world \<Rightarrow> result" where
  "grpc_slice_buffer_reset_and_unref_internal sb w =
     (case sb of None \<Rightarrow> Fault NullDereference w | Some p \<Rightarrow> set_buf p [] w)"

fun trim_end :: "nat \<Rightarrow> grpc_slice_buffer \<Rightarrow> grpc_slice_buffer" where
  "trim_end n [] = []"
| "trim_end n (s # ss) =
     (let m = slice_buffer_length ss in
      if n \<le> m then s # trim_end n ss else [s' \<leftarrow> [take (length s - (n - m)) s]. s' \<noteq> []])"

definition grpc_slice_buffer_trim_end :: "buffer_ptr \<Rightarrow> nat \<Rightarrow> world \<Rightarrow> result" where
  "grpc_slice_buffer_trim_end p n w = set_buf p (trim_end n (bufs w p)) w"

definition grpc_slice_buffer_undo_take_first :: "buffer_ptr \<Rightarrow> grpc_slice \<Rightarrow> world \<Rightarrow> result" where
  "grpc_slice_buffer_undo_take_first p s w = set_buf p (s # bufs w p) w"

definition grpc_slice_sub :: "grpc_slice \<Rightarrow> nat \<Rightarrow> nat \<Rightarrow> grpc_slice" where
  "grpc_slice_sub s b e = take (e - b) (drop b s)"

text \<open>
  Modelled from the spec: the error object of \<open>error.cc\<close> and the status code of
  \<open>status.h\<close>, which are not under src/. An error carries a description, the platform
  error it was created from, and integer and string annotations; "unavailable" is the
  standard status code 14.
\<close>

definition GRPC_STATUS_UNAVAILABLE :: int where
  "GRPC_STATUS_UNAVAILABLE = 14"

definition GRPC_ERROR_CREATE_FROM_STATIC_STRING :: "string \<Rightarrow> grpc_error" where
  "GRPC_ERROR_CREATE_FROM_STATIC_STRING s =
     \<lparr>description = s, cf_cause = None, ints = [], strs = []\<rparr>"

definition GRPC_ERROR_CREATE_FROM_CFERROR :: "CFErrorRef \<Rightarrow> string \<Rightarrow> grpc_error" where
  "GRPC_ERROR_CREATE_FROM_CFERROR cf s =
     \<lparr>description = s, cf_cause = Some cf, ints = [], strs = []\<rparr>"

definition grpc_error_set_int :: "grpc_error \<Rightarrow> grpc_error_ints \<Rightarrow> int \<Rightarrow> grpc_error" where
  "grpc_error_set_int e k v = e\<lparr>ints := (k, v) # [p \<leftarrow> ints e. fst p \<noteq> k]\<rparr>"

definition grpc_error_set_str :: "grpc_error \<Rightarrow> grpc_error_strs \<Rightarrow> string \<Rightarrow> grpc_error" where
  "grpc_error_set_str e k v = e\<lparr>strs := (k, v) # [p \<leftarrow> strs e. fst p \<noteq> k]\<rparr>"

text \<open>
  Modelled from the spec: the closure scheduler of \<open>closure.h\<close>, the timer of \<open>timer.h\<close>,
  the reference count of \<open>sync.h\<close> and the string duplication of \<open>string_util.h\<close>, which
  are not under src/. Scheduling a closure queues it for a later run (it is never run from
  within the call that schedules it); a null closure is not queued, a case that does not
  arise while a callback is pending; the timer
  subsystem holds at most one pending deadline for the endpoint's timer slot, set by
  \<open>grpc_timer_init\<close> and removed by \<open>grpc_timer_cancel\<close>; release is
  decrement-and-maybe-free, the free happening when the count reaches zero;
  \<open>gpr_strdup\<close> copies the characters into storage of its own.
\<close>

definition GRPC_CLOSURE_SCHED :: "grpc_closure option \<Rightarrow> grpc_error_ptr \<Rightarrow> world \<Rightarrow> result" where
  "GRPC_CLOSURE_SCHED cb error w =
     (case cb of None \<Rightarrow> Return w | Some c \<Rightarrow> emit (ClosureSched c error) w)"

definition grpc_timer_init :: "grpc_millis \<Rightarrow> world \<Rightarrow> result" where
  "grpc_timer_init deadline = with_ep (\<lambda>e w.
     Return (w\<lparr>pending_timer := Some deadline, trace := trace w @ [TimerInit deadline]\<rparr>))"

definition grpc_timer_cancel :: "world \<Rightarrow> result" where
  "grpc_timer_cancel = with_ep (\<lambda>e w.
     Return (w\<lparr>pending_timer := None, trace := trace w @ [TimerCancel]\<rparr>))"

definition gpr_mu_lock :: "world \<Rightarrow> result" where
  "gpr_mu_lock = with_ep (\<lambda>e. emit MuLock)"

definition gpr_mu_unlock :: "world \<Rightarrow> result" where
  "gpr_mu_unlock = with_ep (\<lambda>e. emit MuUnlock)"

definition fresh_addr :: "nat list \<Rightarrow> nat" where
  "fresh_addr xs = Suc (fold max xs 0)"

definition gpr_strdup :: "cstring \<Rightarrow> world \<Rightarrow> cstring" where
  "gpr_strdup src w = \<lparr>addr = fresh_addr (addr src # allocated w), chars = chars src\<rparr>"

text \<open>
  The platform stream (CoreFoundation, outside the repository). A transfer attempt either
  fails, and then \<open>CFReadStreamCopyError\<close> or \<open>CFWriteStreamCopyError\<close> gives the platform
  error or null, or it moves some bytes: a read moves at most the bytes the stream has
  and at most the buffer's length (none at the end of the stream), a write at most what
  the stream accepts and at most the region's length. The functions return the number
  of bytes moved, or -1.
\<close>

datatype read_outcome = ReadFails "CFErrorRef option" | Delivers "byte list"
datatype write_outcome = WriteFails "CFErrorRef option" | Accepts nat

fun CFReadStreamRead :: "read_outcome \<Rightarrow> nat \<Rightarrow> int" where
  "CFReadStreamRead (ReadFails cf) len = -1"
| "CFReadStreamRead (Delivers bs) len = int (min (length bs) len)"

fun CFReadStreamCopyError :: "read_outcome \<Rightarrow> CFErrorRef option" where
  "CFReadStreamCopyError (ReadFails cf) = cf"
| "CFReadStreamCopyError (Delivers bs) = None"

fun received :: "read_outcome \<Rightarrow> grpc_slice \<Rightarrow> grpc_slice" where
  "received (ReadFails cf) s = s"
| "received (Delivers bs) s = take (length s) bs @ drop (length bs) s"

fun CFWriteStreamWrite :: "write_outcome \<Rightarrow> nat \<Rightarrow> int" where
  "CFWriteStreamWrite (WriteFails cf) len = -1"
| "CFWriteStreamWrite (Accepts n) len = int (min n len)"

fun CFWriteStreamCopyError :: "write_outcome \<Rightarrow> CFErrorRef option" where
  "CFWriteStreamCopyError (WriteFails cf) = cf"
| "CFWriteStreamCopyError (Accepts n) = None"

subsection \<open>Reference counting\<close>

definition gpr_free_string :: "cstring \<Rightarrow> world \<Rightarrow> result" where
  "gpr_free_string s w = Return (w\<lparr>allocated := removeAll (addr s) (allocated w)\<rparr>)"

definition gpr_free_ep :: "world \<Rightarrow> result" where
  "gpr_free_ep w = Return (w\<lparr>ep_mem := None\<rparr>)"

definition CFStreamFree :: "world \<Rightarrow> result" where
  "CFStreamFree = with_ep (\<lambda>ep. block [
     emit (ResourceUserUnref (resource_user ep)),
     emit (CFRelease (read_stream ep)),
     emit (CFRelease (write_stream ep)),
     emit (HandleUnref (stream_sync ep)),
     gpr_free_string (peer_string ep),
     gpr_free_ep])"

text \<open>\<open>gpr_unref\<close> decrements the count and is true when it was the last reference.\<close>

definition CFStreamUnref :: "string \<Rightarrow> world \<Rightarrow> result" where
  "CFStreamUnref reason = with_ep (\<lambda>ep. block [
     (\<lambda>w. Return (w\<lparr>ep_mem := Some (ep\<lparr>refcount := refcount ep - 1\<rparr>),
                    trace := trace w @ [Unref reason]\<rparr>)),
     (if refcount ep = 1 then CFStreamFree else skip)])"

definition CFStreamRef :: "string \<Rightarrow> world \<Rightarrow> result" where
  "CFStreamRef reason = with_ep (\<lambda>ep w.
     Return (w\<lparr>ep_mem := Some (ep\<lparr>refcount := refcount ep + 1\<rparr>),
                trace := trace w @ [Ref reason]\<rparr>))"

abbreviation EP_REF :: "string \<Rightarrow> world \<Rightarrow> result" where
  "EP_REF reason \<equiv> CFStreamRef reason"

abbreviation EP_UNREF :: "string \<Rightarrow> world \<Rightarrow> result" where
  "EP_UNREF reason \<equiv> CFStreamUnref reason"

subsection \<open>Completion callbacks\<close>

definition CFStreamAnnotateError :: "grpc_error \<Rightarrow> CFStreamEndpoint \<Rightarrow> grpc_error" where
  "CFStreamAnnotateError src_error ep =
     grpc_error_set_str
       (grpc_error_set_int src_error GRPC_ERROR_INT_GRPC_STATUS GRPC_STATUS_UNAVAILABLE)
       GRPC_ERROR_STR_TARGET_ADDRESS
       (chars (peer_string ep))"

definition CallReadCb :: "grpc_error_ptr \<Rightarrow> world \<Rightarrow> result" where
  "CallReadCb error = with_ep (\<lambda>ep.
     let cb = read_cb ep in
     block [store (W_read_cb None), store (W_read_slices None), GRPC_CLOSURE_SCHED cb error])"

definition CallWriteCb :: "grpc_error_ptr \<Rightarrow> world \<Rightarrow> result" where
  "CallWriteCb error = with_ep (\<lambda>ep.
     let cb = write_cb ep in
     block [store (W_write_cb None), store (W_write_slices None), GRPC_CLOSURE_SCHED cb error])"

subsection \<open>The read pipeline\<close>

definition ReadAction :: "grpc_error_ptr \<Rightarrow> read_outcome \<Rightarrow> world \<Rightarrow> result" where
  "ReadAction error transport = with_ep (\<lambda>ep w.
     if read_cb ep = None then Fault AssertionFailed w
     else if error \<noteq> None then
       block [grpc_slice_buffer_reset_and_unref_internal (read_slices ep),
              CallReadCb error,
              EP_UNREF ''read''] w
     else
       (case read_slices ep of
          None \<Rightarrow> Fault NullDereference w
        | Some sb \<Rightarrow>
           (case bufs w sb of
              [slc] \<Rightarrow>
                (let len = length slc;
                     read_size = CFReadStreamRead transport len
                 in block [
                   set_buf sb [received transport slc],
                   emit (ReadStreamRead (read_stream ep) len read_size),
                   (if read_size = -1 then
                      block [grpc_slice_buffer_reset_and_unref_internal (read_slices ep),
                             CallReadCb (Some
                               (case CFReadStreamCopyError transport of
                                  Some stream_error \<Rightarrow>
                                    CFStreamAnnotateError
                                      (GRPC_ERROR_CREATE_FROM_CFERROR stream_error ''Read error'') ep
                                | None \<Rightarrow> GRPC_ERROR_CREATE_FROM_STATIC_STRING ''Read error'')),
                             EP_UNREF ''read'']
                    else if read_size = 0 then
                      block [grpc_slice_buffer_reset_and_unref_internal (read_slices ep),
                             CallReadCb (Some
                               (CFStreamAnnotateError
                                  (GRPC_ERROR_CREATE_FROM_STATIC_STRING ''Socket closed'') ep)),
                             EP_UNREF ''read'']
                    else
                      block [store (W_total_bytes_read (total_bytes_read ep + word_of_int read_size)),
                             (if read_size < int len
                              then grpc_slice_buffer_trim_end sb (len - nat read_size)
                              else skip),
                             CallReadCb None,
                             EP_UNREF ''read'']),
                   gpr_mu_lock,
                   with_ep (\<lambda>ep.
                     if timer_armed ep
                     then block [grpc_timer_cancel, store (W_timer_armed False)]
                     else skip),
                   gpr_mu_unlock] w)
            | _ \<Rightarrow> Fault AssertionFailed w)))"

definition CFStreamReadAllocationDone :: "grpc_error_ptr \<Rightarrow> world \<Rightarrow> result" where
  "CFStreamReadAllocationDone error = with_ep (\<lambda>ep.
     if error = None then emit NotifyOnRead
     else block [grpc_slice_buffer_reset_and_unref_internal (read_slices ep),
                 CallReadCb error,
                 EP_UNREF ''read''])"

text \<open>
  \<open>now\<close> is the clock of the execution context, a \<open>grpc_millis\<close>; the deadline
  \<open>now + 1000 * 60\<close> is computed in 64 bits, and the sum wraps around where the signed
  addition of the code overflows (which the language leaves undefined and two's
  complement arithmetic answers by wrapping). \<open>GRPC_TCP_DEFAULT_READ_SLICE_SIZE\<close> and
  \<open>GRPC_DEFAULT_MAX_RECV_MESSAGE_LENGTH\<close> are constants of headers that are not under src/,
  taken as parameters.
\<close>

definition CFStreamRead :: "nat \<Rightarrow> grpc_millis \<Rightarrow> buffer_ptr \<Rightarrow> grpc_closure \<Rightarrow> world \<Rightarrow> result" where
  "CFStreamRead GRPC_TCP_DEFAULT_READ_SLICE_SIZE now slices cb = block [
     gpr_mu_lock,
     with_ep (\<lambda>ep.
       if \<not> timer_armed ep
       then block [grpc_timer_init (now + 1000 * 60), store (W_timer_armed True)]
       else skip),
     gpr_mu_unlock,
     with_ep (\<lambda>ep w. if read_cb ep = None then Return w else Fault AssertionFailed w),
     store (W_read_cb (Some cb)),
     store (W_read_slices (Some slices)),
     grpc_slice_buffer_reset_and_unref_internal (Some slices),
     with_ep (\<lambda>ep. emit (ResourceUserAllocSlices GRPC_TCP_DEFAULT_READ_SLICE_SIZE 1 slices)),
     EP_REF ''read'']"

subsection \<open>The watchdog\<close>

definition err_cb :: "nat \<Rightarrow> grpc_error_ptr \<Rightarrow> read_outcome \<Rightarrow> world \<Rightarrow> result" where
  "err_cb GRPC_DEFAULT_MAX_RECV_MESSAGE_LENGTH error transport =
     (if error \<noteq> None then skip
      else block [
        with_ep (\<lambda>ep. emit (ReadStreamRead (read_stream ep) GRPC_DEFAULT_MAX_RECV_MESSAGE_LENGTH
                   (CFReadStreamRead transport GRPC_DEFAULT_MAX_RECV_MESSAGE_LENGTH))),
        gpr_mu_lock,
        store (W_timer_armed False),
        gpr_mu_unlock,
        with_ep (\<lambda>ep. emit RunOnQueue),
        Fault ProcessAbort])"

subsection \<open>The write pipeline\<close>

text \<open>
  The trace block at the end of the transfer branch of \<open>WriteAction\<close> logs
  \<open>ep->peer_string\<close> with the bytes written: it reads the endpoint.
\<close>

definition gpr_log_peer_string :: "world \<Rightarrow> result" where
  "gpr_log_peer_string = with_ep (\<lambda>ep w. Return w)"

definition WriteAction :: "grpc_error_ptr \<Rightarrow> write_outcome \<Rightarrow> world \<Rightarrow> result" where
  "WriteAction error transport = with_ep (\<lambda>ep w.
     if write_cb ep = None then Fault AssertionFailed w
     else if error \<noteq> None then
       block [grpc_slice_buffer_reset_and_unref_internal (write_slices ep),
              CallWriteCb error,
              EP_UNREF ''write''] w
     else
       (case write_slices ep of
          None \<Rightarrow> Fault NullDereference w
        | Some sb \<Rightarrow>
           (case bufs w sb of
              [] \<Rightarrow> Fault AssertionFailed w
            | slc # rest \<Rightarrow>
                (let slice_len = length slc;
                     write_size = CFWriteStreamWrite transport slice_len
                 in block [
                   set_buf sb rest,
                   emit (WriteStreamWrite (write_stream ep) slc write_size),
                   (if write_size = -1 then
                      block [grpc_slice_buffer_reset_and_unref_internal (write_slices ep),
                             CallWriteCb (Some
                               (case CFWriteStreamCopyError transport of
                                  Some stream_error \<Rightarrow>
                                    CFStreamAnnotateError
                                      (GRPC_ERROR_CREATE_FROM_CFERROR stream_error ''write failed.'') ep
                                | None \<Rightarrow> GRPC_ERROR_CREATE_FROM_STATIC_STRING ''write failed.'')),
                             EP_UNREF ''write'']
                    else
                      block [
                        (if write_size < int (length slc)
                         then grpc_slice_buffer_undo_take_first sb
                                (grpc_slice_sub slc (nat write_size) slice_len)
                         else skip),
                        (\<lambda>w. if slice_buffer_length (bufs w sb) > 0
                              then emit NotifyOnWrite w
                              else block [CallWriteCb None, EP_UNREF ''write''] w),
                        when_tracing gpr_log_peer_string])] w))))"

definition CFStreamWrite :: "buffer_ptr \<Rightarrow> grpc_closure \<Rightarrow> world \<Rightarrow> result" where
  "CFStreamWrite slices cb = block [
     with_ep (\<lambda>ep w. if write_cb ep = None then Return w else Fault AssertionFailed w),
     store (W_write_cb (Some cb)),
     store (W_write_slices (Some slices)),
     EP_REF ''write'',
     with_ep (\<lambda>ep. emit NotifyOnWrite)]"

subsection \<open>Shutdown, destruction and creation\<close>

definition CFStreamShutdown :: "grpc_error_ptr \<Rightarrow> world \<Rightarrow> result" where
  "CFStreamShutdown why = block [
     gpr_mu_lock,
     with_ep (\<lambda>ep.
       if timer_armed ep
       then block [grpc_timer_cancel, store (W_timer_armed False)]
       else skip),
     gpr_mu_unlock,
     with_ep (\<lambda>ep. emit (ReadStreamClose (read_stream ep))),
     with_ep (\<lambda>ep. emit (WriteStreamClose (write_stream ep))),
     with_ep (\<lambda>ep. emit (HandleShutdown why)),
     with_ep (\<lambda>ep. emit (ResourceUserShutdown (resource_user ep)))]"

definition CFStreamDestroy :: "world \<Rightarrow> result" where
  "CFStreamDestroy = EP_UNREF ''destroy''"

definition CFStreamGetPeer :: "world \<Rightarrow> (cstring \<times> world) option" where
  "CFStreamGetPeer w =
     (case ep_mem w of
        None \<Rightarrow> None
      | Some ep \<Rightarrow>
          (let s = gpr_strdup (peer_string ep) w
           in Some (s, w\<lparr>allocated := addr s # allocated w\<rparr>)))"

definition grpc_resource_user_create :: "nat \<Rightarrow> cstring \<Rightarrow> grpc_resource_user" where
  "grpc_resource_user_create resource_quota name =
     \<lparr>quota = resource_quota, user_name = chars name\<rparr>"

definition grpc_cfstream_endpoint_create ::
  "CFStream_handle \<Rightarrow> CFStream_handle \<Rightarrow> cstring \<Rightarrow> nat \<Rightarrow> nat \<Rightarrow> world \<Rightarrow> result" where
  "grpc_cfstream_endpoint_create rd_stream wr_stream peer resource_quota sync w =
     (let ep_impl = \<lparr>
            refcount = 1,
            read_stream = rd_stream,
            write_stream = wr_stream,
            stream_sync = sync,
            read_cb = None,
            write_cb = None,
            read_slices = None,
            write_slices = None,
            peer_string = gpr_strdup peer w,
            resource_user = grpc_resource_user_create resource_quota peer,
            timer_armed = False,
            total_bytes_read = 0\<rparr>
      in Return (w\<lparr>
           ep_mem := Some ep_impl,
           allocated := addr (peer_string ep_impl) # allocated w,
           trace := trace w @ [CFRetain rd_stream, CFRetain wr_stream, HandleRef sync,
                               ResourceUserCreate (resource_user ep_impl)]\<rparr>))"

subsection \<open>The endpoint among its callers and collaborators\<close>

text \<open>
  Modelled from the spec: the timer subsystem of \<open>timer.h\<close>, which is not under src/. When
  a pending deadline elapses the timer's closure runs without an error; the closure of a
  cancelled timer gets a non-null error instead.
\<close>

definition timer_elapses :: "nat \<Rightarrow> read_outcome \<Rightarrow> world \<Rightarrow> result" where
  "timer_elapses max_recv transport w =
     (case pending_timer w of
        None \<Rightarrow> Return w
      | Some deadline \<Rightarrow> err_cb max_recv None transport (w\<lparr>pending_timer := None\<rparr>))"

text \<open>
  What can happen to an endpoint: its owner calls an entry point, a collaborator runs one
  of the continuations, with any argument and at any moment, or somebody fills a buffer
  (the caller before a write, the allocator when it grants a region). A history is a list
  of such operations; it stops at the first fault.
\<close>

datatype op =
    Read nat grpc_millis buffer_ptr grpc_closure
  | Write buffer_ptr grpc_closure
  | AllocationDone grpc_error_ptr
  | Readable grpc_error_ptr read_outcome
  | Writable grpc_error_ptr write_outcome
  | TimerCallback nat grpc_error_ptr read_outcome
  | Shutdown grpc_error_ptr
  | Destroy
  | Fill buffer_ptr grpc_slice_buffer

fun step :: "op \<Rightarrow> world \<Rightarrow> result" where
  "step (Read sz now slices cb) = CFStreamRead sz now slices cb"
| "step (Write slices cb) = CFStreamWrite slices cb"
| "step (AllocationDone error) = CFStreamReadAllocationDone error"
| "step (Readable error transport) = ReadAction error transport"
| "step (Writable error transport) = WriteAction error transport"
| "step (TimerCallback max_recv error transport) = err_cb max_recv error transport"
| "step (Shutdown why) = CFStreamShutdown why"
| "step Destroy = CFStreamDestroy"
| "step (Fill p sb) = set_buf p sb"

fun run :: "op list \<Rightarrow> world \<Rightarrow> result" where
  "run [] w = Return w"
| "run (x # xs) w = (case step x w of Return w' \<Rightarrow> run xs w' | Fault f w' \<Rightarrow> Fault f w')"

text \<open>The events a call appended to the trace.\<close>

definition new_events :: "world \<Rightarrow> result \<Rightarrow> event list" where
  "new_events w r = drop (length (trace w)) (trace (final r))"

fun is_sched_of :: "grpc_closure \<Rightarrow> event \<Rightarrow> bool" where
  "is_sched_of c (ClosureSched c' error) = (c' = c)"
| "is_sched_of c ev = False"

fun issues :: "grpc_closure \<Rightarrow> op \<Rightarrow> bool" where
  "issues c (Read sz now slices cb) = (cb = c)"
| "issues c (Write slices cb) = (cb = c)"
| "issues c x = False"

definition pending_on :: "grpc_closure \<Rightarrow> CFStreamEndpoint option \<Rightarrow> nat" where
  "pending_on c m =
     (case m of
        None \<Rightarrow> 0
      | Some ep \<Rightarrow> (if read_cb ep = Some c then 1 else 0) + (if write_cb ep = Some c then 1 else 0))"

definition scheduled :: "grpc_closure \<Rightarrow> world \<Rightarrow> nat" where
  "scheduled c w = length (filter (is_sched_of c) (trace w))"

section \<open>What the calls do\<close>

subsection \<open>Vocabulary\<close>

text \<open>
  The definitions from here on describe results and observations; the code is in the
  sections above. \<open>after_unref\<close> is the world after \<open>EP_UNREF\<close> on an endpoint \<open>ep\<close>
  (\<open>free_events\<close> are the calls of \<open>CFStreamFree\<close>), \<open>watchdog_tail\<close> the result of the last
  three statements of \<open>ReadAction\<close>, \<open>read_error\<close> and \<open>write_error\<close> the error a transfer
  attempt hands to the callback, \<open>armed_world\<close> the world after the first three statements
  of \<open>CFStreamRead\<close>, \<open>traced\<close> the result of the trace block of \<open>WriteAction\<close>.
\<close>

definition free_events :: "CFStreamEndpoint \<Rightarrow> event list" where
  "free_events ep = [ResourceUserUnref (resource_user ep), CFRelease (read_stream ep),
                     CFRelease (write_stream ep), HandleUnref (stream_sync ep)]"

definition after_unref :: "string \<Rightarrow> CFStreamEndpoint \<Rightarrow> world \<Rightarrow> world" where
  "after_unref reason ep w =
     (if refcount ep = 1
      then w\<lparr>ep_mem := None,
             allocated := removeAll (addr (peer_string ep)) (allocated w),
             trace := trace w @ Unref reason # free_events ep\<rparr>
      else w\<lparr>ep_mem := Some (ep\<lparr>refcount := refcount ep - 1\<rparr>),
             trace := trace w @ [Unref reason]\<rparr>)"

definition watchdog_tail :: "world \<Rightarrow> result" where
  "watchdog_tail w =
     (case ep_mem w of
        None \<Rightarrow> Fault UseAfterFree w
      | Some ep \<Rightarrow> Return
          (if timer_armed ep
           then w\<lparr>ep_mem := Some (ep\<lparr>timer_armed := False\<rparr>), pending_timer := None,
                  trace := trace w @ [MuLock, TimerCancel, Store (W_timer_armed False), MuUnlock]\<rparr>
           else w\<lparr>trace := trace w @ [MuLock, MuUnlock]\<rparr>))"

definition traced :: "world \<Rightarrow> result" where
  "traced w = (if grpc_tcp_trace w \<and> ep_mem w = None then Fault UseAfterFree w else Return w)"

definition read_error :: "read_outcome \<Rightarrow> CFStreamEndpoint \<Rightarrow> int \<Rightarrow> grpc_error_ptr" where
  "read_error transport ep n =
     (if n = -1 then Some
        (case CFReadStreamCopyError transport of
           Some stream_error \<Rightarrow>
             CFStreamAnnotateError (GRPC_ERROR_CREATE_FROM_CFERROR stream_error ''Read error'') ep
         | None \<Rightarrow> GRPC_ERROR_CREATE_FROM_STATIC_STRING ''Read error'')
      else if n = 0 then Some
        (CFStreamAnnotateError (GRPC_ERROR_CREATE_FROM_STATIC_STRING ''Socket closed'') ep)
      else None)"

definition write_error :: "write_outcome \<Rightarrow> CFStreamEndpoint \<Rightarrow> grpc_error" where
  "write_error transport ep =
     (case CFWriteStreamCopyError transport of
        Some stream_error \<Rightarrow>
          CFStreamAnnotateError (GRPC_ERROR_CREATE_FROM_CFERROR stream_error ''write failed.'') ep
      | None \<Rightarrow> GRPC_ERROR_CREATE_FROM_STATIC_STRING ''write failed.'')"

definition armed_world :: "grpc_millis \<Rightarrow> CFStreamEndpoint \<Rightarrow> world \<Rightarrow> world" where
  "armed_world now ep w =
     (if timer_armed ep
      then w\<lparr>trace := trace w @ [MuLock, MuUnlock]\<rparr>
      else w\<lparr>ep_mem := Some (ep\<lparr>timer_armed := True\<rparr>),
             pending_timer := Some (now + 60000),
             trace := trace w @ [MuLock, TimerInit (now + 60000), Store (W_timer_armed True),
                                 MuUnlock]\<rparr>)"

text \<open>
  Observations on a result and on a trace: the fault, if any; the events that schedule a
  callback, that touch the transport or register interest with the stream handle, that
  take or release a reference; the bytes the write stream has accepted; whether an error
  carries the status UNAVAILABLE and a peer string.
\<close>

fun fault_of :: "result \<Rightarrow> fault option" where
  "fault_of (Return w) = None"
| "fault_of (Fault f w) = Some f"

fun is_callback :: "event \<Rightarrow> bool" where
  "is_callback (ClosureSched c error) = True"
| "is_callback ev = False"

fun is_io :: "event \<Rightarrow> bool" where
  "is_io (ReadStreamRead h len n) = True"
| "is_io (WriteStreamWrite h s n) = True"
| "is_io NotifyOnRead = True"
| "is_io NotifyOnWrite = True"
| "is_io ev = False"

fun is_ref_event :: "event \<Rightarrow> bool" where
  "is_ref_event (Ref reason) = True"
| "is_ref_event (Unref reason) = True"
| "is_ref_event ev = False"

fun sent :: "event list \<Rightarrow> byte list" where
  "sent [] = []"
| "sent (WriteStreamWrite h s n # evs) = take (nat n) s @ sent evs"
| "sent (ev # evs) = sent evs"

definition annotated :: "string \<Rightarrow> grpc_error \<Rightarrow> bool" where
  "annotated peer e =
     (map_of (ints e) GRPC_ERROR_INT_GRPC_STATUS = Some GRPC_STATUS_UNAVAILABLE \<and>
      map_of (strs e) GRPC_ERROR_STR_TARGET_ADDRESS = Some peer)"

text \<open>
  Quantities of a world: the load of a closure (times scheduled plus slots holding it), the
  references outstanding for a reason, the number of times the owner's reference was
  released, whether a write with a given callback is pending, whether the armed flag
  covers the pending deadline, and the invariant of the reference count.
\<close>

definition cb_load :: "grpc_closure \<Rightarrow> world \<Rightarrow> nat" where
  "cb_load c w = scheduled c w + pending_on c (ep_mem w)"

definition balance :: "string \<Rightarrow> world \<Rightarrow> int" where
  "balance reason w =
     int (count_list (trace w) (Ref reason)) - int (count_list (trace w) (Unref reason))"

definition destroys :: "world \<Rightarrow> nat" where
  "destroys w = count_list (trace w) (Unref ''destroy'')"

definition write_pending :: "grpc_closure \<Rightarrow> world \<Rightarrow> bool" where
  "write_pending cb w = (map_option write_cb (ep_mem w) = Some (Some cb))"

definition flag_ok :: "world \<Rightarrow> bool" where
  "flag_ok w =
     (case ep_mem w of None \<Rightarrow> True | Some ep \<Rightarrow> timer_armed ep \<or> pending_timer w = None)"

definition refs_ok :: "world \<Rightarrow> bool" where
  "refs_ok w =
     (destroys w \<le> 1 \<and>
      (case ep_mem w of
         None \<Rightarrow> balance ''read'' w = 0 \<and> balance ''write'' w = 0 \<and> destroys w = 1
       | Some ep \<Rightarrow>
           refcount ep = 1 - int (destroys w) + balance ''read'' w + balance ''write'' w \<and>
           0 < refcount ep \<and>
           balance ''read'' w = (if read_cb ep = None then 0 else 1) \<and>
           balance ''write'' w = (if write_cb ep = None then 0 else 1) \<and>
           (read_cb ep = None \<longrightarrow> read_slices ep = None)))"

text \<open>Histories: a sequence of writable notifications; the owner's destroy.\<close>

definition writable :: "nat list \<Rightarrow> op list" where
  "writable ms = map (\<lambda>m. Writable None (Accepts m)) ms"

definition is_Destroy :: "op \<Rightarrow> bool" where
  "is_Destroy x = (x = Destroy)"

text \<open>
  Example worlds: a new endpoint for the peer "peer" (\<open>connected\<close>); the same endpoint with a
  read issued at time 1000 for callback 9, waiting for the stream on a granted region of
  64 bytes (\<open>reading\<close>); with a write of two regions of 50 bytes for callback 11
  (\<open>writing\<close>); and the reading endpoint after 4294967295 bytes (\<open>near_wrap\<close>).
\<close>

definition fresh_world :: world where
  "fresh_world = \<lparr>ep_mem = None, bufs = (\<lambda>p. []), allocated = [7], pending_timer = None,
     trace = [], grpc_tcp_trace = False\<rparr>"

definition peer_ep :: CFStreamEndpoint where
  "peer_ep = \<lparr>refcount = 1, read_stream = 1, write_stream = 2, stream_sync = 4,
     read_cb = None, write_cb = None, read_slices = None, write_slices = None,
     peer_string = \<lparr>addr = 8, chars = ''peer''\<rparr>,
     resource_user = \<lparr>quota = 3, user_name = ''peer''\<rparr>,
     timer_armed = False, total_bytes_read = 0\<rparr>"

definition connected :: world where
  "connected = final (grpc_cfstream_endpoint_create 1 2 \<lparr>addr = 7, chars = ''peer''\<rparr> 3 4 fresh_world)"

definition reading_ep :: CFStreamEndpoint where
  "reading_ep = peer_ep\<lparr>timer_armed := True, read_cb := Some 9, read_slices := Some 5,
                        refcount := 2\<rparr>"

definition reading :: world where
  "reading = final (run [Read 64 1000 5 9, Fill 5 [replicate 64 0], AllocationDone None] connected)"

definition writing :: world where
  "writing = final (run [Fill 6 [replicate 50 1, replicate 50 2], Write 6 11] connected)"

definition stream_failed :: grpc_error where
  "stream_failed = GRPC_ERROR_CREATE_FROM_STATIC_STRING ''Stream error''"

definition near_wrap :: world where
  "near_wrap = reading\<lparr>ep_mem :=
     map_option (\<lambda>ep. ep\<lparr>total_bytes_read := 4294967295\<rparr>) (ep_mem reading)\<rparr>"

subsection \<open>Each call as one equation\<close>

lemma CallReadCb_eq:
  "CallReadCb error w =
     (case ep_mem w of
        None \<Rightarrow> Fault UseAfterFree w
      | Some ep \<Rightarrow> Return (w\<lparr>
          ep_mem := Some (ep\<lparr>read_cb := None, read_slices := None\<rparr>),
          trace := trace w @ [Store (W_read_cb None), Store (W_read_slices None)] @
                   (case read_cb ep of None \<Rightarrow> [] | Some cb \<Rightarrow> [ClosureSched cb error])\<rparr>))"
  by (simp add: CallReadCb_def with_ep_def store_def GRPC_CLOSURE_SCHED_def emit_def split: option.splits)

lemma CallWriteCb_eq:
  "CallWriteCb error w =
     (case ep_mem w of
        None \<Rightarrow> Fault UseAfterFree w
      | Some ep \<Rightarrow> Return (w\<lparr>
          ep_mem := Some (ep\<lparr>write_cb := None, write_slices := None\<rparr>),
          trace := trace w @ [Store (W_write_cb None), Store (W_write_slices None)] @
                   (case write_cb ep of None \<Rightarrow> [] | Some cb \<Rightarrow> [ClosureSched cb error])\<rparr>))"
  by (simp add: CallWriteCb_def with_ep_def store_def GRPC_CLOSURE_SCHED_def emit_def split: option.splits)

lemma CFStreamUnref_eq:
  "CFStreamUnref reason w =
    (case ep_mem w of
        None \<Rightarrow> Fault UseAfterFree w
      | Some ep \<Rightarrow> Return (after_unref reason ep w))"
  by (simp add: CFStreamUnref_def CFStreamFree_def with_ep_def emit_def skip_def
        gpr_free_string_def gpr_free_ep_def free_events_def after_unref_def split: option.splits)

lemma watchdog_tail_eq:
  "block [gpr_mu_lock,
          with_ep (\<lambda>ep. if timer_armed ep
                         then block [grpc_timer_cancel, store (W_timer_armed False)]
                         else skip),
          gpr_mu_unlock] w = watchdog_tail w"
  by (simp add: watchdog_tail_def gpr_mu_lock_def gpr_mu_unlock_def with_ep_def emit_def
        skip_def grpc_timer_cancel_def store_def split: option.splits)

lemma traced_eq: "when_tracing gpr_log_peer_string w = traced w"
  by (simp add: when_tracing_def gpr_log_peer_string_def with_ep_def traced_def
        split: option.splits)

lemma final_traced [simp]: "final (traced w) = w"
  by (simp add: traced_def)

lemma traced_live: "ep_mem w = Some ep \<Longrightarrow> traced w = Return w"
  by (simp add: traced_def)

lemma traced_cases: "traced w = Return w \<or> traced w = Fault UseAfterFree w"
  by (simp add: traced_def)

lemma traced_off: "\<not> grpc_tcp_trace w \<Longrightarrow> traced w = Return w"
  by (simp add: traced_def)

lemma block_last: "(case r of Return w \<Rightarrow> block [] w | Fault f w \<Rightarrow> Fault f w) = r"
  by (cases r) simp_all

lemma block_Cons_Return: "s w = Return w' \<Longrightarrow> block (s # ss) w = block ss w'"
  by simp

lemmas exec = with_ep_def emit_def store_def skip_def set_buf_def
  grpc_slice_buffer_reset_and_unref_internal_def grpc_slice_buffer_trim_end_def
  grpc_slice_buffer_undo_take_first_def GRPC_CLOSURE_SCHED_def grpc_timer_init_def
  grpc_timer_cancel_def gpr_mu_lock_def gpr_mu_unlock_def CFStreamRef_def Let_def
  CallReadCb_eq CallWriteCb_eq CFStreamUnref_eq

lemma ReadAction_freed: "ep_mem w = None \<Longrightarrow> ReadAction error transport w = Fault UseAfterFree w"
  by (simp add: ReadAction_def with_ep_def)

lemma ReadAction_idle:
  "ep_mem w = Some ep \<Longrightarrow> read_cb ep = None \<Longrightarrow>
   ReadAction error transport w = Fault AssertionFailed w"
  by (simp add: ReadAction_def with_ep_def)

lemma ReadAction_null:
  "ep_mem w = Some ep \<Longrightarrow> read_cb ep = Some cb \<Longrightarrow> read_slices ep = None \<Longrightarrow>
   ReadAction error transport w = Fault NullDereference w"
  by (simp add: ReadAction_def exec)

lemma ReadAction_error:
  assumes "ep_mem w = Some ep" "read_cb ep = Some cb" "read_slices ep = Some sb"
  shows "ReadAction (Some err) transport w =
    Return (after_unref ''read'' (ep\<lparr>read_cb := None, read_slices := None\<rparr>)
      (w\<lparr>bufs := (bufs w)(sb := []),
         ep_mem := Some (ep\<lparr>read_cb := None, read_slices := None\<rparr>),
         trace := trace w @ [Store (W_read_cb None), Store (W_read_slices None),
                             ClosureSched cb (Some err)]\<rparr>))"
  using assms by (simp add: ReadAction_def exec)

lemma ReadAction_count:
  assumes "ep_mem w = Some ep" "read_cb ep = Some cb" "read_slices ep = Some sb"
    "length (bufs w sb) \<noteq> 1"
  shows "ReadAction None transport w = Fault AssertionFailed w"
proof -
  have "bufs w sb = [] \<or> (\<exists>a b l. bufs w sb = a # b # l)"
    using assms(4) by (cases "bufs w sb"; cases "tl (bufs w sb)") auto
  then show ?thesis
    using assms(1-3) by (auto simp: ReadAction_def with_ep_def)
qed

lemma ReadAction_transfer:
  assumes "ep_mem w = Some ep" "read_cb ep = Some cb" "read_slices ep = Some sb"
    "bufs w sb = [slc]" "n = CFReadStreamRead transport (length slc)"
  shows "ReadAction None transport w =
    (let moved = (n \<noteq> -1 \<and> n \<noteq> 0);
         ep1 = (if moved then ep\<lparr>total_bytes_read := total_bytes_read ep + word_of_int n\<rparr> else ep)
                 \<lparr>read_cb := None, read_slices := None\<rparr>;
         buf = (if \<not> moved then []
                else if n < int (length slc)
                     then trim_end (length slc - nat n) [received transport slc]
                     else [received transport slc])
     in watchdog_tail (after_unref ''read'' ep1
          (w\<lparr>bufs := (bufs w)(sb := buf),
             ep_mem := Some ep1,
             trace := trace w @ ReadStreamRead (read_stream ep) (length slc) n #
               (if moved then [Store (W_total_bytes_read (total_bytes_read ep + word_of_int n))] else []) @
               [Store (W_read_cb None), Store (W_read_slices None),
                ClosureSched cb (read_error transport ep n)]\<rparr>)))"
  using assms(1-4) unfolding assms(5)
  by (simp add: ReadAction_def exec read_error_def watchdog_tail_def after_unref_def free_events_def
       del: CFReadStreamRead.simps received.simps trim_end.simps CFReadStreamCopyError.simps)

lemma WriteAction_freed: "ep_mem w = None \<Longrightarrow> WriteAction error transport w = Fault UseAfterFree w"
  by (simp add: WriteAction_def with_ep_def)

lemma WriteAction_idle:
  "ep_mem w = Some ep \<Longrightarrow> write_cb ep = None \<Longrightarrow>
   WriteAction error transport w = Fault AssertionFailed w"
  by (simp add: WriteAction_def with_ep_def)

lemma WriteAction_null:
  "ep_mem w = Some ep \<Longrightarrow> write_cb ep = Some cb \<Longrightarrow> write_slices ep = None \<Longrightarrow>
   WriteAction error transport w = Fault NullDereference w"
  by (simp add: WriteAction_def exec)

lemma WriteAction_empty:
  "ep_mem w = Some ep \<Longrightarrow> write_cb ep = Some cb \<Longrightarrow> write_slices ep = Some sb \<Longrightarrow>
   bufs w sb = [] \<Longrightarrow> WriteAction None transport w = Fault AssertionFailed w"
  by (simp add: WriteAction_def exec)

lemma WriteAction_error:
  assumes "ep_mem w = Some ep" "write_cb ep = Some cb" "write_slices ep = Some sb"
  shows "WriteAction (Some err) transport w =
    Return (after_unref ''write'' (ep\<lparr>write_cb := None, write_slices := None\<rparr>)
      (w\<lparr>bufs := (bufs w)(sb := []),
         ep_mem := Some (ep\<lparr>write_cb := None, write_slices := None\<rparr>),
         trace := trace w @ [Store (W_write_cb None), Store (W_write_slices None),
                             ClosureSched cb (Some err)]\<rparr>))"
  using assms by (simp add: WriteAction_def exec)

lemma WriteAction_transfer:
  assumes "ep_mem w = Some ep" "write_cb ep = Some cb" "write_slices ep = Some sb"
    "bufs w sb = slc # rest" "n = CFWriteStreamWrite transport (length slc)"
  shows "WriteAction None transport w =
    (let ep1 = ep\<lparr>write_cb := None, write_slices := None\<rparr>;
         remaining = (if n < int (length slc) then drop (nat n) slc # rest else rest)
     in if n = -1 then
          Return (after_unref ''write'' ep1
            (w\<lparr>bufs := (bufs w)(sb := []),
               ep_mem := Some ep1,
               trace := trace w @ [WriteStreamWrite (write_stream ep) slc n,
                 Store (W_write_cb None), Store (W_write_slices None),
                 ClosureSched cb (Some (write_error transport ep))]\<rparr>))
        else if slice_buffer_length remaining > 0 then
          Return (w\<lparr>bufs := (bufs w)(sb := remaining),
                    trace := trace w @ [WriteStreamWrite (write_stream ep) slc n, NotifyOnWrite]\<rparr>)
        else
          traced (after_unref ''write'' ep1
            (w\<lparr>bufs := (bufs w)(sb := remaining),
               ep_mem := Some ep1,
               trace := trace w @ [WriteStreamWrite (write_stream ep) slc n,
                 Store (W_write_cb None), Store (W_write_slices None),
                 ClosureSched cb None]\<rparr>)))"
  using assms(1-4) unfolding assms(5)
  by (simp add: WriteAction_def exec traced_eq traced_live block_last write_error_def
       grpc_slice_sub_def
       del: CFWriteStreamWrite.simps CFWriteStreamCopyError.simps)

lemma AllocationDone_freed:
  "ep_mem w = None \<Longrightarrow> CFStreamReadAllocationDone error w = Fault UseAfterFree w"
  by (simp add: CFStreamReadAllocationDone_def with_ep_def)

lemma AllocationDone_granted:
  "ep_mem w = Some ep \<Longrightarrow>
   CFStreamReadAllocationDone None w = Return (w\<lparr>trace := trace w @ [NotifyOnRead]\<rparr>)"
  by (simp add: CFStreamReadAllocationDone_def exec)

lemma AllocationDone_null:
  "ep_mem w = Some ep \<Longrightarrow> read_slices ep = None \<Longrightarrow>
   CFStreamReadAllocationDone (Some err) w = Fault NullDereference w"
  by (simp add: CFStreamReadAllocationDone_def exec)

lemma AllocationDone_failed:
  assumes "ep_mem w = Some ep" "read_slices ep = Some sb"
  shows "CFStreamReadAllocationDone (Some err) w =
    Return (after_unref ''read'' (ep\<lparr>read_cb := None, read_slices := None\<rparr>)
      (w\<lparr>bufs := (bufs w)(sb := []),
         ep_mem := Some (ep\<lparr>read_cb := None, read_slices := None\<rparr>),
         trace := trace w @ [Store (W_read_cb None), Store (W_read_slices None)] @
                  (case read_cb ep of None \<Rightarrow> [] | Some cb \<Rightarrow> [ClosureSched cb (Some err)])\<rparr>))"
  using assms by (simp add: CFStreamReadAllocationDone_def exec)

lemma CFStreamRead_freed:
  "ep_mem w = None \<Longrightarrow> CFStreamRead sz now slices cb w = Fault UseAfterFree w"
  by (simp add: CFStreamRead_def exec)

lemma CFStreamRead_busy:
  "ep_mem w = Some ep \<Longrightarrow> read_cb ep = Some cb' \<Longrightarrow>
   CFStreamRead sz now slices cb w = Fault AssertionFailed (armed_world now ep w)"
  by (simp add: CFStreamRead_def exec armed_world_def)

lemma CFStreamRead_issued:
  assumes "ep_mem w = Some ep" "read_cb ep = None"
  shows "CFStreamRead sz now slices cb w = Return (w\<lparr>
      bufs := (bufs w)(slices := []),
      ep_mem := Some (ep\<lparr>timer_armed := True, read_cb := Some cb, read_slices := Some slices,
                         refcount := refcount ep + 1\<rparr>),
      pending_timer := (if timer_armed ep then pending_timer w else Some (now + 60000)),
      trace := trace w @ MuLock #
        (if timer_armed ep then [] else [TimerInit (now + 60000), Store (W_timer_armed True)]) @
        [MuUnlock, Store (W_read_cb (Some cb)), Store (W_read_slices (Some slices)),
         ResourceUserAllocSlices sz 1 slices, Ref ''read'']\<rparr>)"
  using assms by (simp add: CFStreamRead_def exec)

lemma CFStreamWrite_freed:
  "ep_mem w = None \<Longrightarrow> CFStreamWrite slices cb w = Fault UseAfterFree w"
  by (simp add: CFStreamWrite_def exec)

lemma CFStreamWrite_busy:
  "ep_mem w = Some ep \<Longrightarrow> write_cb ep = Some cb' \<Longrightarrow>
   CFStreamWrite slices cb w = Fault AssertionFailed w"
  by (simp add: CFStreamWrite_def exec)

lemma CFStreamWrite_issued:
  assumes "ep_mem w = Some ep" "write_cb ep = None"
  shows "CFStreamWrite slices cb w = Return (w\<lparr>
      ep_mem := Some (ep\<lparr>write_cb := Some cb, write_slices := Some slices,
                         refcount := refcount ep + 1\<rparr>),
      trace := trace w @ [Store (W_write_cb (Some cb)), Store (W_write_slices (Some slices)),
                          Ref ''write'', NotifyOnWrite]\<rparr>)"
  using assms by (simp add: CFStreamWrite_def exec)

lemma CFStreamShutdown_freed:
  "ep_mem w = None \<Longrightarrow> CFStreamShutdown why w = Fault UseAfterFree w"
  by (simp add: CFStreamShutdown_def exec)

lemma CFStreamShutdown_live:
  assumes "ep_mem w = Some ep"
  shows "CFStreamShutdown why w = Return (w\<lparr>
      ep_mem := Some (ep\<lparr>timer_armed := False\<rparr>),
      pending_timer := (if timer_armed ep then None else pending_timer w),
      trace := trace w @ MuLock #
        (if timer_armed ep then [TimerCancel, Store (W_timer_armed False)] else []) @
        [MuUnlock, ReadStreamClose (read_stream ep), WriteStreamClose (write_stream ep),
         HandleShutdown why, ResourceUserShutdown (resource_user ep)]\<rparr>)"
  using assms by (simp add: CFStreamShutdown_def exec)

lemma err_cb_cancelled: "err_cb max_recv (Some err) transport w = Return w"
  by (simp add: err_cb_def skip_def)

lemma err_cb_freed:
  "ep_mem w = None \<Longrightarrow> err_cb max_recv None transport w = Fault UseAfterFree w"
  by (simp add: err_cb_def exec)

lemma err_cb_fired:
  assumes "ep_mem w = Some ep"
  shows "err_cb max_recv None transport w = Fault ProcessAbort (w\<lparr>
      ep_mem := Some (ep\<lparr>timer_armed := False\<rparr>),
      trace := trace w @ [ReadStreamRead (read_stream ep) max_recv (CFReadStreamRead transport max_recv),
                          MuLock, Store (W_timer_armed False), MuUnlock, RunOnQueue]\<rparr>)"
  using assms by (simp add: err_cb_def exec del: CFReadStreamRead.simps)

lemma new_events_append [simp]:
  "trace (final r) = trace w @ evs \<Longrightarrow> new_events w r = evs"
  by (simp add: new_events_def)

lemma trimmed:
  assumes "k = min (length bs) (length slc)" "0 < k"
  shows "(if k < length slc
          then trim_end (length slc - k) [received (Delivers bs) slc]
          else [received (Delivers bs) slc]) = [take k bs]"
  using assms by (auto simp: min_def slice_buffer_length_def Let_def)

lemma ReadAction_delivers:
  assumes "ep_mem w = Some ep" "read_cb ep = Some cb" "read_slices ep = Some sb"
    "bufs w sb = [slc]" "k = min (length bs) (length slc)" "0 < k"
  shows "ReadAction None (Delivers bs) w =
    watchdog_tail (after_unref ''read''
      (ep\<lparr>total_bytes_read := total_bytes_read ep + of_nat k, read_cb := None, read_slices := None\<rparr>)
      (w\<lparr>bufs := (bufs w)(sb := [take k bs]),
         ep_mem := Some (ep\<lparr>total_bytes_read := total_bytes_read ep + of_nat k,
                            read_cb := None, read_slices := None\<rparr>),
         trace := trace w @ [ReadStreamRead (read_stream ep) (length slc) (int k),
           Store (W_total_bytes_read (total_bytes_read ep + of_nat k)),
           Store (W_read_cb None), Store (W_read_slices None), ClosureSched cb None]\<rparr>))"
proof -
  have n: "int k = CFReadStreamRead (Delivers bs) (length slc)"
    using assms(5) by simp
  have buf: "(if k < length slc
          then trim_end (length slc - k) [received (Delivers bs) slc]
          else [received (Delivers bs) slc]) = [take k bs]"
    by (rule trimmed [OF assms(5) assms(6)])
  have err: "read_error (Delivers bs) ep (int k) = None"
    using assms(6) by (simp add: read_error_def)
  show ?thesis
    using assms(6) buf
    by (simp add: ReadAction_transfer [OF assms(1-4) n] err Let_def
          del: received.simps trim_end.simps split: if_splits)
qed

lemma read_completion_events:
  assumes "w1 = w\<lparr>bufs := b, ep_mem := Some ep1, trace := trace w @ evs\<rparr>"
  shows "new_events w (watchdog_tail (after_unref ''read'' ep1 w1)) =
     evs @ Unref ''read'' #
       (if refcount ep1 = 1 then free_events ep1
        else MuLock # (if timer_armed ep1 then [TimerCancel, Store (W_timer_armed False)] else []) @
             [MuUnlock])"
  unfolding assms
  by (simp add: watchdog_tail_def after_unref_def)

lemma ReadAction_failure_events:
  assumes "ep_mem w = Some ep" "read_cb ep = Some cb" "read_slices ep = Some sb"
    "bufs w sb = [slc]" "n = CFReadStreamRead transport (length slc)" "n = -1 \<or> n = 0"
  shows "filter is_callback (new_events w (ReadAction None transport w)) =
           [ClosureSched cb (read_error transport ep n)]"
    and "filter is_io (new_events w (ReadAction None transport w)) =
           [ReadStreamRead (read_stream ep) (length slc) n]"
    and "bufs (final (ReadAction None transport w)) sb = []"
  using assms(6)
  by (auto simp: ReadAction_transfer [OF assms(1-5)] Let_def read_completion_events [OF refl]
        free_events_def watchdog_tail_def after_unref_def)

lemma annotated_CFStreamAnnotateError:
  "annotated (chars (peer_string ep)) (CFStreamAnnotateError e ep)"
  by (simp add: annotated_def CFStreamAnnotateError_def grpc_error_set_int_def
        grpc_error_set_str_def)

lemma WriteAction_failure_events:
  assumes "ep_mem w = Some ep" "write_cb ep = Some cb" "write_slices ep = Some sb"
    "bufs w sb = slc # rest"
  shows "filter is_callback (new_events w (WriteAction None (WriteFails cf) w)) =
           [ClosureSched cb (Some (write_error (WriteFails cf) ep))]"
    and "filter is_io (new_events w (WriteAction None (WriteFails cf) w)) =
           [WriteStreamWrite (write_stream ep) slc (- 1)]"
    and "bufs (final (WriteAction None (WriteFails cf) w)) sb = []"
  by (simp_all add: WriteAction_transfer [OF assms refl] Let_def after_unref_def free_events_def
        new_events_def)

lemma fold_max_ge: "a \<le> fold max xs (a :: nat)"
proof (induction xs arbitrary: a)
  case Nil
  show ?case by simp
next
  case (Cons x xs)
  have "a \<le> max x a" by simp
  also have "max x a \<le> fold max xs (max x a)" by (rule Cons.IH)
  finally show ?case by simp
qed

lemma fold_max_member: "x \<in> set xs \<Longrightarrow> x \<le> fold max xs (a :: nat)"
proof (induction xs arbitrary: a)
  case Nil
  then show ?case by simp
next
  case (Cons y ys)
  show ?case
  proof (cases "x = y")
    case True
    have "x \<le> max y a" using True by simp
    also have "max y a \<le> fold max ys (max y a)" by (rule fold_max_ge)
    finally show ?thesis by simp
  next
    case False
    then have "x \<in> set ys" using Cons.prems by simp
    then show ?thesis using Cons.IH by simp
  qed
qed

lemma fresh_addr_new: "fresh_addr xs \<notin> set xs"
proof
  assume "fresh_addr xs \<in> set xs"
  then have "fresh_addr xs \<le> fold max xs 0" by (rule fold_max_member)
  then show False by (simp add: fresh_addr_def)
qed


subsection \<open>The example worlds\<close>

lemma connected_eq:
  "connected = \<lparr>ep_mem = Some peer_ep, bufs = (\<lambda>p. []), allocated = [8, 7], pending_timer = None,
     trace = [CFRetain 1, CFRetain 2, HandleRef 4,
              ResourceUserCreate \<lparr>quota = 3, user_name = ''peer''\<rparr>],
     grpc_tcp_trace = False\<rparr>"
  by (simp add: connected_def fresh_world_def peer_ep_def grpc_cfstream_endpoint_create_def
        gpr_strdup_def fresh_addr_def grpc_resource_user_create_def)

lemma reading_eq:
  "reading = \<lparr>
     ep_mem = Some (peer_ep\<lparr>timer_armed := True, read_cb := Some 9, read_slices := Some 5,
                            refcount := 2\<rparr>),
     bufs = (\<lambda>p. [])(5 := [replicate 64 0]), allocated = [8, 7], pending_timer = Some 61000,
     trace = [CFRetain 1, CFRetain 2, HandleRef 4,
              ResourceUserCreate \<lparr>quota = 3, user_name = ''peer''\<rparr>,
              MuLock, TimerInit 61000, Store (W_timer_armed True), MuUnlock,
              Store (W_read_cb (Some 9)), Store (W_read_slices (Some 5)),
              ResourceUserAllocSlices 64 1 5, Ref ''read'', NotifyOnRead],
     grpc_tcp_trace = False\<rparr>"
proof -
  have 1: "CFStreamRead 64 1000 5 9 connected = Return
     (connected\<lparr>bufs := (bufs connected)(5 := []),
        ep_mem := Some (peer_ep\<lparr>timer_armed := True, read_cb := Some 9, read_slices := Some 5,
                            refcount := 2\<rparr>),
        pending_timer := Some 61000,
        trace := trace connected @ [MuLock, TimerInit 61000, Store (W_timer_armed True), MuUnlock,
              Store (W_read_cb (Some 9)), Store (W_read_slices (Some 5)),
              ResourceUserAllocSlices 64 1 5, Ref ''read'']\<rparr>)"
    by (subst CFStreamRead_issued [of connected peer_ep]) (simp_all add: connected_eq peer_ep_def)
  show ?thesis
    unfolding reading_def
    by (simp add: 1 set_buf_def AllocationDone_granted) (simp add: connected_eq)
qed


lemma reading_live: "ep_mem reading = Some reading_ep"
  by (simp add: reading_eq reading_ep_def)

lemma reading_ep_simps:
  "read_cb reading_ep = Some 9" "read_slices reading_ep = Some 5" "refcount reading_ep = 2"
  "timer_armed reading_ep" "total_bytes_read reading_ep = 0" "read_stream reading_ep = 1"
  "write_cb reading_ep = None" "chars (peer_string reading_ep) = ''peer''"
  by (simp_all add: reading_ep_def peer_ep_def)

lemma reading_simps:
  "bufs reading 5 = [replicate 64 0]" "pending_timer reading = Some 61000"
  by (simp_all add: reading_eq)

lemma writing_eq:
  "writing = connected\<lparr>
     bufs := (bufs connected)(6 := [replicate 50 1, replicate 50 2]),
     ep_mem := Some (peer_ep\<lparr>write_cb := Some 11, write_slices := Some 6, refcount := 2\<rparr>),
     trace := trace connected @ [Store (W_write_cb (Some 11)), Store (W_write_slices (Some 6)),
                          Ref ''write'', NotifyOnWrite]\<rparr>"
proof -
  have "CFStreamWrite 6 11 (connected\<lparr>bufs := (bufs connected)(6 := [replicate 50 1, replicate 50 2])\<rparr>)
    = Return (connected\<lparr>
     bufs := (bufs connected)(6 := [replicate 50 1, replicate 50 2]),
     ep_mem := Some (peer_ep\<lparr>write_cb := Some 11, write_slices := Some 6, refcount := 2\<rparr>),
     trace := trace connected @ [Store (W_write_cb (Some 11)), Store (W_write_slices (Some 6)),
                          Ref ''write'', NotifyOnWrite]\<rparr>)"
    by (subst CFStreamWrite_issued [of _ peer_ep]) (simp_all add: connected_eq peer_ep_def)
  then show ?thesis
    by (simp add: writing_def set_buf_def)
qed

lemma writing_simps:
  "ep_mem writing = Some (peer_ep\<lparr>write_cb := Some 11, write_slices := Some 6, refcount := 2\<rparr>)"
  "bufs writing 6 = [replicate 50 1, replicate 50 2]"
  by (simp_all add: writing_eq)

lemma connected_live: "ep_mem connected = Some peer_ep"
  by (simp add: connected_eq)

lemma Destroy_reading:
  "CFStreamDestroy reading = Return (reading\<lparr>
     ep_mem := Some (reading_ep\<lparr>refcount := 1\<rparr>),
     trace := trace reading @ [Unref ''destroy'']\<rparr>)"
  by (simp add: CFStreamDestroy_def CFStreamUnref_eq reading_live after_unref_def
        reading_ep_simps)

section \<open>The claims\<close>

subsection \<open>C1: a callback is scheduled once, after its slot was cleared\<close>

text \<open>
  The load of a closure is the number of times it has been scheduled plus the number of
  slots that hold it. No call of the file raises it, except that issuing a read or a write
  with the closure raises it by one.
\<close>

lemma load_after_unref:
  "cb_load c (after_unref reason ep w) \<le> scheduled c w + pending_on c (Some ep)"
  by (simp add: cb_load_def after_unref_def scheduled_def pending_on_def free_events_def)

lemma load_watchdog_tail: "cb_load c (final (watchdog_tail w)) = cb_load c w"
  by (simp add: cb_load_def watchdog_tail_def scheduled_def pending_on_def split: option.splits)

lemma load_completed:
  assumes "ep_mem w = Some ep"
    "pending_on c (Some ep1) + d \<le> pending_on c (Some ep)"
    "scheduled c w1 = scheduled c w + d"
  shows "cb_load c (after_unref reason ep1 w1) \<le> cb_load c w"
    and "cb_load c (final (watchdog_tail (after_unref reason ep1 w1))) \<le> cb_load c w"
proof -
  have "cb_load c (after_unref reason ep1 w1) \<le> scheduled c w1 + pending_on c (Some ep1)"
    by (rule load_after_unref)
  also have "\<dots> \<le> cb_load c w"
    using assms by (simp add: cb_load_def)
  finally show "cb_load c (after_unref reason ep1 w1) \<le> cb_load c w" .
  then show "cb_load c (final (watchdog_tail (after_unref reason ep1 w1))) \<le> cb_load c w"
    by (simp add: load_watchdog_tail)
qed

lemma load_ReadAction: "cb_load c (final (ReadAction error transport w)) \<le> cb_load c w"
proof (cases "ep_mem w")
  case None
  then show ?thesis by (simp add: ReadAction_freed)
next
  case (Some ep)
  show ?thesis
  proof (cases "read_cb ep")
    case None
    then show ?thesis by (simp add: ReadAction_idle [OF Some])
  next
    case cb: (Some cb)
    show ?thesis
    proof (cases "read_slices ep")
      case None
      then show ?thesis by (simp add: ReadAction_null [OF Some cb])
    next
      case sb: (Some sb)
      show ?thesis
      proof (cases error)
        case (Some err)
        show ?thesis
          unfolding Some ReadAction_error [OF \<open>ep_mem w = Some ep\<close> cb sb] final.simps
          by (rule load_completed(1) [OF \<open>ep_mem w = Some ep\<close>, where d = "if cb = c then 1 else 0"])
             (simp_all add: pending_on_def scheduled_def cb)
      next
        case None
        show ?thesis
        proof (cases "length (bufs w sb) = 1")
          case False
          then show ?thesis
            by (simp add: None ReadAction_count [OF \<open>ep_mem w = Some ep\<close> cb sb])
        next
          case True
          then obtain slc where slc: "bufs w sb = [slc]"
            by (cases "bufs w sb") auto
          show ?thesis
            unfolding None ReadAction_transfer [OF \<open>ep_mem w = Some ep\<close> cb sb slc refl] Let_def
            by (rule load_completed(2) [OF \<open>ep_mem w = Some ep\<close>, where d = "if cb = c then 1 else 0"])
               (simp_all add: pending_on_def scheduled_def cb)
        qed
      qed
    qed
  qed
qed

lemma load_WriteAction: "cb_load c (final (WriteAction error transport w)) \<le> cb_load c w"
proof (cases "ep_mem w")
  case None
  then show ?thesis by (simp add: WriteAction_freed)
next
  case (Some ep)
  note live = Some
  show ?thesis
  proof (cases "write_cb ep")
    case None
    then show ?thesis by (simp add: WriteAction_idle [OF live])
  next
    case cb: (Some cb)
    show ?thesis
    proof (cases "write_slices ep")
      case None
      then show ?thesis by (simp add: WriteAction_null [OF live cb])
    next
      case sb: (Some sb)
      show ?thesis
      proof (cases error)
        case (Some err)
        show ?thesis
          unfolding Some WriteAction_error [OF live cb sb] final.simps
          by (rule load_completed(1) [OF live, where d = "if cb = c then 1 else 0"])
             (simp_all add: pending_on_def scheduled_def cb)
      next
        case None
        show ?thesis
        proof (cases "bufs w sb")
          case Nil
          then show ?thesis
            by (simp add: None WriteAction_empty [OF live cb sb])
        next
          case (Cons slc rest)
          define n where "n = CFWriteStreamWrite transport (length slc)"
          define remaining where
            "remaining = (if n < int (length slc) then drop (nat n) slc # rest else rest)"
          note eq = WriteAction_transfer [OF live cb sb Cons n_def, unfolded Let_def,
              folded remaining_def]
          have finished: "cb_load c (after_unref ''write'' (ep\<lparr>write_cb := None, write_slices := None\<rparr>)
                (w\<lparr>bufs := b, ep_mem := Some (ep\<lparr>write_cb := None, write_slices := None\<rparr>),
                   trace := trace w @ [WriteStreamWrite (write_stream ep) slc m,
                     Store (W_write_cb None), Store (W_write_slices None),
                     ClosureSched cb e]\<rparr>)) \<le> cb_load c w" for b e m
            by (rule load_completed(1) [OF live, where d = "if cb = c then 1 else 0"])
               (simp_all add: pending_on_def scheduled_def cb)
          have again: "cb_load c (w\<lparr>bufs := b,
                   trace := trace w @ [WriteStreamWrite (write_stream ep) slc m,
                     NotifyOnWrite]\<rparr>) \<le> cb_load c w" for b m
            by (simp add: cb_load_def scheduled_def)
          show ?thesis
            unfolding None eq
            by (cases "n = - 1"; cases "0 < slice_buffer_length remaining")
               (simp_all only: if_True if_False final.simps final_traced finished again refl
                  not_False_eq_True if_cancel)
        qed
      qed
    qed
  qed
qed

lemma load_AllocationDone:
  "cb_load c (final (CFStreamReadAllocationDone error w)) \<le> cb_load c w"
proof (cases "ep_mem w")
  case None
  then show ?thesis by (simp add: AllocationDone_freed)
next
  case (Some ep)
  note live = Some
  show ?thesis
  proof (cases error)
    case None
    then show ?thesis
      by (simp add: AllocationDone_granted [OF live] cb_load_def scheduled_def live)
  next
    case (Some err)
    show ?thesis
    proof (cases "read_slices ep")
      case None
      then show ?thesis by (simp add: Some AllocationDone_null [OF live])
    next
      case sb: (Some sb)
      show ?thesis
        unfolding Some AllocationDone_failed [OF live sb] final.simps
        by (rule load_completed(1) [OF live,
              where d = "case read_cb ep of None \<Rightarrow> 0 | Some cb \<Rightarrow> if cb = c then 1 else 0"])
           (simp_all add: pending_on_def scheduled_def split: option.splits)
    qed
  qed
qed

lemma load_CFStreamRead:
  "cb_load c (final (CFStreamRead sz now slices cb w)) \<le> cb_load c w + (if cb = c then 1 else 0)"
proof (cases "ep_mem w")
  case None
  then show ?thesis by (simp add: CFStreamRead_freed)
next
  case (Some ep)
  show ?thesis
  proof (cases "read_cb ep")
    case None
    then show ?thesis
      by (simp add: CFStreamRead_issued [OF Some] cb_load_def scheduled_def pending_on_def Some)
  next
    case (Some cb')
    then show ?thesis
      by (simp add: CFStreamRead_busy [OF \<open>ep_mem w = Some ep\<close>] armed_world_def cb_load_def
            scheduled_def pending_on_def \<open>ep_mem w = Some ep\<close>)
  qed
qed

lemma load_CFStreamWrite:
  "cb_load c (final (CFStreamWrite slices cb w)) \<le> cb_load c w + (if cb = c then 1 else 0)"
proof (cases "ep_mem w")
  case None
  then show ?thesis by (simp add: CFStreamWrite_freed)
next
  case (Some ep)
  show ?thesis
  proof (cases "write_cb ep")
    case None
    then show ?thesis
      by (simp add: CFStreamWrite_issued [OF Some] cb_load_def scheduled_def pending_on_def Some)
  next
    case (Some cb')
    then show ?thesis
      by (simp add: CFStreamWrite_busy [OF \<open>ep_mem w = Some ep\<close>])
  qed
qed

lemma load_CFStreamShutdown: "cb_load c (final (CFStreamShutdown why w)) \<le> cb_load c w"
proof (cases "ep_mem w")
  case None
  then show ?thesis by (simp add: CFStreamShutdown_freed)
next
  case (Some ep)
  then show ?thesis
    by (simp add: CFStreamShutdown_live [OF Some] cb_load_def scheduled_def pending_on_def)
qed

lemma load_CFStreamDestroy: "cb_load c (final (CFStreamDestroy w)) \<le> cb_load c w"
proof (cases "ep_mem w")
  case None
  then show ?thesis by (simp add: CFStreamDestroy_def CFStreamUnref_eq)
next
  case (Some ep)
  have "cb_load c (after_unref ''destroy'' ep w) \<le> scheduled c w + pending_on c (Some ep)"
    by (rule load_after_unref)
  then show ?thesis
    by (simp add: CFStreamDestroy_def CFStreamUnref_eq Some cb_load_def)
qed

lemma load_err_cb: "cb_load c (final (err_cb max_recv error transport w)) \<le> cb_load c w"
proof (cases error)
  case (Some err)
  then show ?thesis by (simp add: err_cb_cancelled)
next
  case None
  show ?thesis
  proof (cases "ep_mem w")
    case None
    then show ?thesis by (simp add: \<open>error = None\<close> err_cb_freed)
  next
    case (Some ep)
    then show ?thesis
      by (simp add: \<open>error = None\<close> err_cb_fired [OF Some] cb_load_def scheduled_def
            pending_on_def del: CFReadStreamRead.simps)
  qed
qed

lemma load_step:
  "cb_load c (final (step x w)) \<le> cb_load c w + (if issues c x then 1 else 0)"
proof (cases x)
  case (Read sz now slices cb)
  then show ?thesis using load_CFStreamRead [of c sz now slices cb w] by simp
next
  case (Write slices cb)
  then show ?thesis using load_CFStreamWrite [of c slices cb w] by simp
next
  case (AllocationDone error)
  then show ?thesis using load_AllocationDone [of c error w] by simp
next
  case (Readable error transport)
  then show ?thesis using load_ReadAction [of c error transport w] by simp
next
  case (Writable error transport)
  then show ?thesis using load_WriteAction [of c error transport w] by simp
next
  case (TimerCallback max_recv error transport)
  then show ?thesis using load_err_cb [of c max_recv error transport w] by simp
next
  case (Shutdown why)
  then show ?thesis using load_CFStreamShutdown [of c why w] by simp
next
  case Destroy
  then show ?thesis using load_CFStreamDestroy [of c w] by simp
next
  case (Fill p sb)
  then show ?thesis by (simp add: set_buf_def cb_load_def scheduled_def)
qed

lemma load_run:
  "cb_load c (final (run ops w)) \<le> cb_load c w + length (filter (issues c) ops)"
proof (induction ops arbitrary: w)
  case Nil
  show ?case by simp
next
  case (Cons x xs)
  show ?case
  proof (cases "step x w")
    case (Return w')
    have "cb_load c (final (run xs w')) \<le> cb_load c w' + length (filter (issues c) xs)"
      by (rule Cons.IH)
    moreover have "cb_load c w' \<le> cb_load c w + (if issues c x then 1 else 0)"
      using load_step [of c x w] Return by simp
    ultimately show ?thesis
      using Return by (simp split: if_splits)
  next
    case (Fault f w')
    have "cb_load c w' \<le> cb_load c w + (if issues c x then 1 else 0)"
      using load_step [of c x w] Fault by simp
    then show ?thesis
      using Fault by (simp split: if_splits)
  qed
qed

text \<open>
  C1. \<open>CallReadCb\<close> and \<open>CallWriteCb\<close> read the slot, store null in the callback slot and
  in the buffer slot, and only then schedule the closure they read: in the trace the two
  stores precede the scheduling, and the endpoint the scheduled closure will find has both
  slots null. And in every history of calls, from any world, a closure is scheduled at most
  as many times as a read or a write was issued with it: counting what was scheduled and
  what is still pending in a slot, the history adds at most one for each issued operation.
\<close>

theorem callback_at_most_once_slot_cleared_first:
  "CallReadCb error w =
     (case ep_mem w of
        None \<Rightarrow> Fault UseAfterFree w
      | Some ep \<Rightarrow> Return (w\<lparr>
          ep_mem := Some (ep\<lparr>read_cb := None, read_slices := None\<rparr>),
          trace := trace w @ [Store (W_read_cb None), Store (W_read_slices None)] @
                   (case read_cb ep of None \<Rightarrow> [] | Some cb \<Rightarrow> [ClosureSched cb error])\<rparr>)) \<and>
   CallWriteCb error w =
     (case ep_mem w of
        None \<Rightarrow> Fault UseAfterFree w
      | Some ep \<Rightarrow> Return (w\<lparr>
          ep_mem := Some (ep\<lparr>write_cb := None, write_slices := None\<rparr>),
          trace := trace w @ [Store (W_write_cb None), Store (W_write_slices None)] @
                   (case write_cb ep of None \<Rightarrow> [] | Some cb \<Rightarrow> [ClosureSched cb error])\<rparr>)) \<and>
   scheduled c (final (run ops w0)) + pending_on c (ep_mem (final (run ops w0)))
     \<le> scheduled c w0 + pending_on c (ep_mem w0) + length (filter (issues c) ops)"
  using load_run [of c ops w0] by (simp add: CallReadCb_eq CallWriteCb_eq cb_load_def)

theorem callback_at_most_once_slot_cleared_first_witness:
  "CallReadCb None reading = Return (reading\<lparr>
      ep_mem := Some (reading_ep\<lparr>read_cb := None, read_slices := None\<rparr>),
      trace := trace reading @ [Store (W_read_cb None), Store (W_read_slices None),
                                ClosureSched 9 None]\<rparr>) \<and>
   scheduled 9 (final (run [Read 64 1000 5 9, Fill 5 [replicate 64 0], AllocationDone None,
       Readable None (Delivers [1, 2, 3]), Readable None (Delivers [4]),
       AllocationDone (Some stream_failed)] connected)) \<le> 1"
proof -
  note t = callback_at_most_once_slot_cleared_first [of None reading 9
      "[Read 64 1000 5 9, Fill 5 [replicate 64 0], AllocationDone None,
        Readable None (Delivers [1, 2, 3]), Readable None (Delivers [4]),
        AllocationDone (Some stream_failed)]" connected]
  have "scheduled 9 connected = 0" "pending_on 9 (ep_mem connected) = 0"
    by (simp_all add: connected_eq scheduled_def pending_on_def peer_ep_def)
  then show ?thesis
    using t by (simp add: reading_live reading_ep_simps)
qed

subsection \<open>C2: a read that moves bytes\<close>

lemma unat_add_of_nat:
  "unat ((t :: 32 word) + of_nat k) = (unat t + k) mod 2 ^ 32"
  by (simp add: unat_word_ariths unat_of_nat mod_add_right_eq)

text \<open>
  C2 (as amended). A read completion whose single granted region has \<open>len\<close> bytes and whose
  transfer moves \<open>k > 0\<close> bytes leaves exactly the \<open>k\<close> bytes moved in the destination (no
  trim when \<open>k = len\<close>), stores the counter plus \<open>k\<close> in the 32-bit counter, that is
  the old value plus \<open>k\<close> modulo \<open>2 ^ 32\<close>, schedules the callback once, with success and
  after clearing the slot, and releases one reference: the endpoint is freed when that was
  the last one, otherwise its count is one less.
\<close>

theorem ReadAction_partial_read:
  assumes "ep_mem w = Some ep" "read_cb ep = Some cb" "read_slices ep = Some sb"
    "bufs w sb = [slc]" "k = min (length bs) (length slc)" "0 < k"
  shows "let r = ReadAction None (Delivers bs) w;
             total = total_bytes_read ep + of_nat k
         in bufs (final r) sb = [take k bs] \<and>
            slice_buffer_length (bufs (final r) sb) = k \<and>
            take 6 (new_events w r) =
              [ReadStreamRead (read_stream ep) (length slc) (int k),
               Store (W_total_bytes_read total),
               Store (W_read_cb None), Store (W_read_slices None),
               ClosureSched cb None, Unref ''read''] \<and>
            filter is_callback (new_events w r) = [ClosureSched cb None] \<and>
            unat total = (unat (total_bytes_read ep) + k) mod 2 ^ 32 \<and>
            ep_mem (final r) =
              (if refcount ep = 1 then None
               else Some (ep\<lparr>total_bytes_read := total, read_cb := None, read_slices := None,
                              refcount := refcount ep - 1, timer_armed := False\<rparr>))"
proof -
  have len: "length (take k bs) = k"
    using assms(5) by simp
  show ?thesis
    unfolding Let_def ReadAction_delivers [OF assms]
    using len
    by (cases "refcount ep = 1"; cases "timer_armed ep")
       (simp_all add: watchdog_tail_def after_unref_def free_events_def slice_buffer_length_def
          unat_add_of_nat del: take_all_iff)
qed

theorem ReadAction_partial_read_witness:
  "let r = ReadAction None (Delivers (replicate 10 1)) reading
   in bufs (final r) 5 = [replicate 10 1] \<and>
      filter is_callback (new_events reading r) = [ClosureSched 9 None] \<and>
      map_option total_bytes_read (ep_mem (final r)) = Some 10"
  using ReadAction_partial_read [OF reading_live reading_ep_simps(1) reading_ep_simps(2)
      reading_simps(1), of 10 "replicate 10 1"]
  by (simp add: Let_def reading_ep_simps)

lemma near_wrap_live:
  "ep_mem near_wrap = Some (reading_ep\<lparr>total_bytes_read := 4294967295\<rparr>)"
  "bufs near_wrap 5 = [replicate 64 0]"
  by (simp_all add: near_wrap_def reading_live reading_simps)

text \<open>
  The claim as stated fails where the 32-bit counter wraps: with 4294967295 bytes counted, a
  read of 10 bytes leaves 9 in the counter.
\<close>

theorem counter_wraps_counterexample:
  "map_option (unat \<circ> total_bytes_read) (ep_mem near_wrap) = Some 4294967295 \<and>
   map_option (unat \<circ> total_bytes_read)
     (ep_mem (final (ReadAction None (Delivers (replicate 10 1)) near_wrap))) = Some 9"
proof -
  have "ReadAction None (Delivers (replicate 10 1)) near_wrap =
    watchdog_tail (after_unref ''read''
      (reading_ep\<lparr>total_bytes_read := 4294967295 + 10, read_cb := None, read_slices := None\<rparr>)
      (near_wrap\<lparr>bufs := (bufs near_wrap)(5 := [replicate 10 1]),
         ep_mem := Some (reading_ep\<lparr>total_bytes_read := 4294967295 + 10, read_cb := None, read_slices := None\<rparr>),
         trace := trace near_wrap @ [ReadStreamRead 1 64 10,
           Store (W_total_bytes_read (4294967295 + 10)),
           Store (W_read_cb None), Store (W_read_slices None), ClosureSched 9 None]\<rparr>))"
    using ReadAction_delivers [OF near_wrap_live(1) _ _ near_wrap_live(2), of 9 10 "replicate 10 1"]
    by (simp add: reading_ep_simps)
  then show ?thesis
    by (simp add: near_wrap_live watchdog_tail_def after_unref_def reading_ep_simps)
qed

subsection \<open>C3: a write is drained in order\<close>

lemma sent_append: "sent (xs @ ys) = sent xs @ sent ys"
  by (induction xs rule: sent.induct) simp_all

lemma concat_empty_iff_length: "(slice_buffer_length sb = 0) = (concat sb = [])"
  by (simp add: slice_buffer_length_def flip: length_concat)

lemma WriteAction_accepts:
  assumes "ep_mem w = Some ep" "write_cb ep = Some cb" "write_slices ep = Some sb"
    "bufs w sb = slc # rest" "k = min m (length slc)"
    "remaining = (if k < length slc then drop k slc # rest else rest)"
  shows "WriteAction None (Accepts m) w =
    (if 0 < slice_buffer_length remaining
      then Return (w\<lparr>bufs := (bufs w)(sb := remaining),
             trace := trace w @ [WriteStreamWrite (write_stream ep) slc (int k), NotifyOnWrite]\<rparr>)
      else traced (after_unref ''write'' (ep\<lparr>write_cb := None, write_slices := None\<rparr>)
             (w\<lparr>bufs := (bufs w)(sb := remaining),
                ep_mem := Some (ep\<lparr>write_cb := None, write_slices := None\<rparr>),
                trace := trace w @ [WriteStreamWrite (write_stream ep) slc (int k),
                  Store (W_write_cb None), Store (W_write_slices None),
                  ClosureSched cb None]\<rparr>)))"
proof -
  have n: "int k = CFWriteStreamWrite (Accepts m) (length slc)"
    using assms(5) by simp
  show ?thesis
    unfolding assms(6)
    by (simp add: WriteAction_transfer [OF assms(1-4) n] Let_def)
qed

lemma run_writable_idle:
  assumes "ep_mem w = None \<or> map_option write_cb (ep_mem w) = Some None"
  shows "final (run (writable ms) w) = w"
proof (cases ms)
  case Nil
  then show ?thesis by (simp add: writable_def)
next
  case (Cons m ms')
  show ?thesis
  proof (cases "ep_mem w")
    case None
    then show ?thesis
      by (simp add: Cons writable_def WriteAction_freed)
  next
    case (Some ep)
    then have "write_cb ep = None" using assms by simp
    then show ?thesis
      by (simp add: Cons writable_def WriteAction_idle [OF Some])
  qed
qed

lemma write_order:
  assumes "ep_mem w = Some ep" "write_cb ep = Some cb" "write_slices ep = Some sb"
  shows "sent (trace (final (run (writable ms) w))) @ concat (bufs (final (run (writable ms) w)) sb)
           = sent (trace w) @ concat (bufs w sb) \<and>
         (if write_pending cb (final (run (writable ms) w))
          then scheduled cb (final (run (writable ms) w)) = scheduled cb w
          else scheduled cb (final (run (writable ms) w)) = scheduled cb w + 1 \<and>
               concat (bufs (final (run (writable ms) w)) sb) = [])"
  using assms
proof (induction ms arbitrary: w)
  case Nil
  then show ?case by (simp add: writable_def write_pending_def)
next
  case (Cons m ms)
  note live = Cons.prems
  show ?case
  proof (cases "bufs w sb")
    case Nil
    have "WriteAction None (Accepts m) w = Fault AssertionFailed w"
      by (rule WriteAction_empty [OF live Nil])
    then show ?thesis
      using live by (simp add: writable_def write_pending_def)
  next
    case (Cons slc rest)
    define k where "k = min m (length slc)"
    define remaining where "remaining = (if k < length slc then drop k slc # rest else rest)"
    note step = WriteAction_accepts [OF live Cons k_def remaining_def]
    have split: "take k slc @ concat remaining = concat (slc # rest)"
      by (simp add: remaining_def k_def)
    show ?thesis
    proof (cases "0 < slice_buffer_length remaining")
      case True
      let ?w' = "w\<lparr>bufs := (bufs w)(sb := remaining),
             trace := trace w @ [WriteStreamWrite (write_stream ep) slc (int k), NotifyOnWrite]\<rparr>"
      have run: "run (writable (m # ms)) w = run (writable ms) ?w'"
        using True by (simp add: writable_def step)
      have live': "ep_mem ?w' = Some ep" using live(1) by simp
      have "sent (trace ?w') @ concat (bufs ?w' sb) = sent (trace w) @ concat (bufs w sb)"
        using split by (simp add: sent_append Cons)
      moreover have "scheduled cb ?w' = scheduled cb w"
        by (simp add: scheduled_def)
      ultimately show ?thesis
        using Cons.IH [OF live' live(2,3)] unfolding run by simp
    next
      case False
      let ?w' = "after_unref ''write'' (ep\<lparr>write_cb := None, write_slices := None\<rparr>)
             (w\<lparr>bufs := (bufs w)(sb := remaining),
                ep_mem := Some (ep\<lparr>write_cb := None, write_slices := None\<rparr>),
                trace := trace w @ [WriteStreamWrite (write_stream ep) slc (int k),
                  Store (W_write_cb None), Store (W_write_slices None),
                  ClosureSched cb None]\<rparr>)"
      have idle: "ep_mem ?w' = None \<or> map_option write_cb (ep_mem ?w') = Some None"
        by (simp add: after_unref_def)
      have st: "WriteAction None (Accepts m) w = traced ?w'"
        using False by (simp add: step)
      have run: "final (run (writable (m # ms)) w) = ?w'"
      proof -
        from traced_cases [of ?w'] show ?thesis
        proof
          assume "traced ?w' = Return ?w'"
          then show ?thesis
            using run_writable_idle [OF idle, of ms] by (simp add: writable_def st)
        next
          assume "traced ?w' = Fault UseAfterFree ?w'"
          then show ?thesis
            by (simp add: writable_def st)
        qed
      qed
      have empty: "concat remaining = []"
        using False by (simp add: concat_empty_iff_length)
      have "sent (trace ?w') = sent (trace w) @ take k slc"
        by (simp add: after_unref_def free_events_def sent_append)
      moreover have "bufs ?w' sb = remaining"
        by (simp add: after_unref_def)
      moreover have "scheduled cb ?w' = scheduled cb w + 1"
        by (simp add: after_unref_def free_events_def scheduled_def)
      moreover have "\<not> write_pending cb ?w'"
        by (simp add: after_unref_def write_pending_def)
      ultimately show ?thesis
        unfolding run using split empty by (simp add: Cons)
    qed
  qed
qed

text \<open>
  C3. \<open>WriteAction\<close> without a notifier error, on a pending write whose sequence has a first
  region: the first region is taken off the sequence and offered to the transport; when
  the transport takes fewer bytes than the region has, the rest of the region goes back to
  the front of the sequence; then, when the sequence still holds bytes (the code tests the
  sequence's byte length), interest in "writable" is registered again, the callback is not
  scheduled and the endpoint is as before; when it holds no byte any more the callback is
  scheduled with success, after the slot was cleared, and the write's reference is
  released. The call returns, with one exception: when tracing is enabled and the write
  completes holding the last reference, the trace block that follows reads the endpoint
  the release has freed; every effect listed here has happened by then. Over any number of
  writable notifications (\<open>writable ms\<close>, the transport taking at most \<open>m\<close> bytes at each) the
  bytes taken by the transport followed by the bytes still in the sequence are the bytes
  of the sequence as it was: bytes are handed over in the caller's order, none twice and
  none skipped; and the callback has been scheduled, once, exactly when the write is no
  longer pending, and then no byte is left.
\<close>

theorem WriteAction_in_order:
  assumes "ep_mem w = Some ep" "write_cb ep = Some cb" "write_slices ep = Some sb"
    "bufs w sb = slc # rest" "k = min m (length slc)"
    "remaining = (if k < length slc then drop k slc # rest else rest)"
  shows "(let r = WriteAction None (Accepts m) w
          in fault_of r =
               (if slice_buffer_length remaining = 0 \<and> refcount ep = 1 \<and> grpc_tcp_trace w
                then Some UseAfterFree else None) \<and>
             bufs (final r) sb = remaining \<and>
             new_events w r = WriteStreamWrite (write_stream ep) slc (int k) #
               (if 0 < slice_buffer_length remaining then [NotifyOnWrite]
                else [Store (W_write_cb None), Store (W_write_slices None),
                      ClosureSched cb None, Unref ''write''] @
                     (if refcount ep = 1
                      then [ResourceUserUnref (resource_user ep), CFRelease (read_stream ep),
                            CFRelease (write_stream ep), HandleUnref (stream_sync ep)]
                      else [])) \<and>
             ep_mem (final r) =
               (if 0 < slice_buffer_length remaining then Some ep
                else if refcount ep = 1 then None
                else Some (ep\<lparr>write_cb := None, write_slices := None,
                               refcount := refcount ep - 1\<rparr>))) \<and>
         (let wf = final (run (writable ms) w)
          in sent (trace wf) @ concat (bufs wf sb) = sent (trace w) @ concat (bufs w sb) \<and>
             (if write_pending cb wf then scheduled cb wf = scheduled cb w
              else scheduled cb wf = scheduled cb w + 1 \<and> concat (bufs wf sb) = []))"
proof -
  have one: "let r = WriteAction None (Accepts m) w
          in fault_of r =
               (if slice_buffer_length remaining = 0 \<and> refcount ep = 1 \<and> grpc_tcp_trace w
                then Some UseAfterFree else None) \<and>
             bufs (final r) sb = remaining \<and>
             new_events w r = WriteStreamWrite (write_stream ep) slc (int k) #
               (if 0 < slice_buffer_length remaining then [NotifyOnWrite]
                else [Store (W_write_cb None), Store (W_write_slices None),
                      ClosureSched cb None, Unref ''write''] @
                     (if refcount ep = 1
                      then [ResourceUserUnref (resource_user ep), CFRelease (read_stream ep),
                            CFRelease (write_stream ep), HandleUnref (stream_sync ep)]
                      else [])) \<and>
             ep_mem (final r) =
               (if 0 < slice_buffer_length remaining then Some ep
                else if refcount ep = 1 then None
                else Some (ep\<lparr>write_cb := None, write_slices := None,
                               refcount := refcount ep - 1\<rparr>))"
    unfolding Let_def WriteAction_accepts [OF assms]
    using assms(1) by (simp add: traced_def after_unref_def free_events_def new_events_def)
  show ?thesis
    using one write_order [OF assms(1-3), of ms] by (simp add: Let_def)
qed

lemma writing_ep_simps:
  "write_cb (peer_ep\<lparr>write_cb := Some 11, write_slices := Some 6, refcount := 2\<rparr>) = Some 11"
  "write_slices (peer_ep\<lparr>write_cb := Some 11, write_slices := Some 6, refcount := 2\<rparr>) = Some 6"
  by simp_all

theorem WriteAction_in_order_witness:
  "fault_of (WriteAction None (Accepts 30) writing) = None \<and>
   bufs (final (WriteAction None (Accepts 30) writing)) 6 = [replicate 20 1, replicate 50 2] \<and>
   new_events writing (WriteAction None (Accepts 30) writing) =
     [WriteStreamWrite 2 (replicate 50 1) 30, NotifyOnWrite] \<and>
   sent (trace (final (run (writable [30, 70, 70]) writing))) @
     concat (bufs (final (run (writable [30, 70, 70]) writing)) 6) =
     replicate 50 1 @ replicate 50 2"
proof -
  note t = WriteAction_in_order [OF writing_simps(1) writing_ep_simps writing_simps(2) refl refl,
      of 30 "[30, 70, 70]"]
  have tr: "sent (trace writing) = []"
    by (simp add: writing_eq connected_eq)
  show ?thesis
    using t tr by (simp add: Let_def writing_simps peer_ep_def slice_buffer_length_def)
qed

text \<open>
  Two regions of 50 bytes and a transport that takes at most 30, then 70, then 70 bytes:
  the write is still pending after two notifications (each offers one region, and the
  second offers the 20 bytes put back) and complete after the third.
\<close>

lemma drained:
  "write_pending 11 (final (run (writable [30, 70]) writing)) \<and>
   \<not> write_pending 11 (final (run (writable [30, 70, 70]) writing)) \<and>
   sent (trace (final (run (writable [30, 70, 70]) writing))) = replicate 50 1 @ replicate 50 2"
  by (simp add: writable_def writing_eq connected_eq peer_ep_def WriteAction_def Let_def
        with_ep_def emit_def store_def skip_def set_buf_def when_tracing_def
        grpc_slice_buffer_undo_take_first_def grpc_slice_sub_def
        CallWriteCb_eq CFStreamUnref_eq after_unref_def write_pending_def
        slice_buffer_length_def flip: replicate_add)

text \<open>
  The same write with tracing enabled, on an endpoint its owner has destroyed while the
  write was pending: the notification that takes the last bytes schedules the callback and
  releases the last reference, which frees the endpoint, and the trace block then reads
  the freed endpoint. All bytes have been handed over, in order.
\<close>

lemma traced_write_reads_freed_endpoint:
  "(let w = final (run [Destroy] (writing\<lparr>grpc_tcp_trace := True\<rparr>));
        r = run (writable [50, 50]) w
    in ep_mem w \<noteq> None \<and>
       fault_of r = Some UseAfterFree \<and>
       ep_mem (final r) = None \<and>
       filter is_callback (new_events w r) = [ClosureSched 11 None] \<and>
       sent (trace (final r)) = replicate 50 1 @ replicate 50 2)"
  by (simp add: writable_def writing_eq connected_eq peer_ep_def WriteAction_def Let_def
        with_ep_def emit_def store_def skip_def set_buf_def when_tracing_def
        gpr_log_peer_string_def CFStreamDestroy_def new_events_def
        grpc_slice_buffer_undo_take_first_def grpc_slice_sub_def
        CallWriteCb_eq CFStreamUnref_eq after_unref_def free_events_def
        slice_buffer_length_def)

subsection \<open>C4: errors of a transfer attempt\<close>

text \<open>
  C4 (as amended). When a read moves no byte (the orderly close), and when a read or a write
  fails and the platform reports an error object for it, the error the callback gets was
  annotated by \<open>CFStreamAnnotateError\<close> before it was scheduled: it carries the status
  UNAVAILABLE and the endpoint's peer string. When a read or a write fails and the platform
  reports no error object, the callback gets the plain error "Read error" or "write failed.",
  without annotations. In each of these cases the callback is scheduled exactly once, the
  call made one transfer attempt and no other, and it registered no further interest with
  the stream: the endpoint does not retry.
\<close>

theorem transfer_errors_annotated_not_retried:
  assumes "ep_mem w = Some ep" "read_cb ep = Some cb" "read_slices ep = Some sb"
    "bufs w sb = [slc]" "min (length bs) (length slc) = 0"
    "ep_mem w' = Some ep'" "write_cb ep' = Some cb'" "write_slices ep' = Some sb'"
    "bufs w' sb' = slc' # rest"
  shows
   "(let r = ReadAction None (ReadFails (Some cf)) w;
         e = CFStreamAnnotateError (GRPC_ERROR_CREATE_FROM_CFERROR cf ''Read error'') ep
     in filter is_callback (new_events w r) = [ClosureSched cb (Some e)] \<and>
        annotated (chars (peer_string ep)) e \<and>
        filter is_io (new_events w r) = [ReadStreamRead (read_stream ep) (length slc) (- 1)]) \<and>
    (let r = ReadAction None (Delivers bs) w;
         e = CFStreamAnnotateError (GRPC_ERROR_CREATE_FROM_STATIC_STRING ''Socket closed'') ep
     in filter is_callback (new_events w r) = [ClosureSched cb (Some e)] \<and>
        annotated (chars (peer_string ep)) e \<and>
        filter is_io (new_events w r) = [ReadStreamRead (read_stream ep) (length slc) 0]) \<and>
    (let r = ReadAction None (ReadFails None) w
     in filter is_callback (new_events w r) =
          [ClosureSched cb (Some (GRPC_ERROR_CREATE_FROM_STATIC_STRING ''Read error''))] \<and>
        filter is_io (new_events w r) = [ReadStreamRead (read_stream ep) (length slc) (- 1)]) \<and>
    (let r = WriteAction None (WriteFails (Some cf')) w';
         e = CFStreamAnnotateError (GRPC_ERROR_CREATE_FROM_CFERROR cf' ''write failed.'') ep'
     in filter is_callback (new_events w' r) = [ClosureSched cb' (Some e)] \<and>
        annotated (chars (peer_string ep')) e \<and>
        filter is_io (new_events w' r) = [WriteStreamWrite (write_stream ep') slc' (- 1)] \<and>
        bufs (final r) sb' = []) \<and>
    (let r = WriteAction None (WriteFails None) w'
     in filter is_callback (new_events w' r) =
          [ClosureSched cb' (Some (GRPC_ERROR_CREATE_FROM_STATIC_STRING ''write failed.''))] \<and>
        filter is_io (new_events w' r) = [WriteStreamWrite (write_stream ep') slc' (- 1)] \<and>
        bufs (final r) sb' = [])"
proof -
  note rd = ReadAction_failure_events [OF assms(1-4)]
  note wr = WriteAction_failure_events [OF assms(6-9)]
  have a: "(- 1 :: int) = CFReadStreamRead (ReadFails x) (length slc)" for x
    by simp
  have b: "(0 :: int) = CFReadStreamRead (Delivers bs) (length slc)"
    using assms(5) by simp
  show ?thesis
    unfolding Let_def
    by (simp add: rd(1,2) [OF a] rd(1,2) [OF b] wr read_error_def write_error_def
          annotated_CFStreamAnnotateError del: CFReadStreamRead.simps)
qed

theorem transfer_errors_annotated_not_retried_witness:
  "filter is_callback (new_events reading (ReadAction None (Delivers []) reading)) =
     [ClosureSched 9 (Some \<lparr>description = ''Socket closed'', cf_cause = None,
        ints = [(GRPC_ERROR_INT_GRPC_STATUS, 14)],
        strs = [(GRPC_ERROR_STR_TARGET_ADDRESS, ''peer'')]\<rparr>)] \<and>
   filter is_callback (new_events writing (WriteAction None (WriteFails (Some 33)) writing)) =
     [ClosureSched 11 (Some \<lparr>description = ''write failed.'', cf_cause = Some 33,
        ints = [(GRPC_ERROR_INT_GRPC_STATUS, 14)],
        strs = [(GRPC_ERROR_STR_TARGET_ADDRESS, ''peer'')]\<rparr>)]"
  using transfer_errors_annotated_not_retried [OF reading_live reading_ep_simps(1)
      reading_ep_simps(2) reading_simps(1) _ writing_simps(1) _ _ writing_simps(2),
      of "[]" 11 0 33]
  by (simp add: Let_def reading_ep_simps peer_ep_def CFStreamAnnotateError_def
        GRPC_ERROR_CREATE_FROM_STATIC_STRING_def GRPC_ERROR_CREATE_FROM_CFERROR_def
        grpc_error_set_int_def grpc_error_set_str_def GRPC_STATUS_UNAVAILABLE_def)

text \<open>
  The claim as stated fails for a transfer that fails while \<open>CFReadStreamCopyError\<close> gives
  null: the error handed to the callback has neither a status nor a peer string.
\<close>

theorem unannotated_transfer_error_counterexample:
  "filter is_callback (new_events reading (ReadAction None (ReadFails None) reading)) =
     [ClosureSched 9 (Some \<lparr>description = ''Read error'', cf_cause = None, ints = [], strs = []\<rparr>)] \<and>
   \<not> annotated ''peer'' \<lparr>description = ''Read error'', cf_cause = None, ints = [], strs = []\<rparr>"
proof -
  have a: "(- 1 :: int) = CFReadStreamRead (ReadFails None) (length (replicate 64 (0 :: byte)))"
    by simp
  show ?thesis
    by (simp add: ReadAction_failure_events(1) [OF reading_live reading_ep_simps(1)
          reading_ep_simps(2) reading_simps(1) a] read_error_def annotated_def
          GRPC_ERROR_CREATE_FROM_STATIC_STRING_def)
qed

subsection \<open>C5: the watchdog at the end of a read completion\<close>

text \<open>
  C5. The claim says that every execution of \<open>ReadAction\<close> ends in a terminal path that
  cancels an armed watchdog, after the callback was scheduled. The code misses this twice.
  First, every transfer path does \<open>EP_UNREF\<close> before it locks the endpoint's mutex and reads
  the armed flag: when the read held the last reference (the owner called \<open>CFStreamDestroy\<close>
  while the read was in flight) the endpoint is freed by the release and the watchdog
  statements touch freed memory; the timer is not cancelled. Second, the path taken when the
  notifier reports an error returns before the watchdog statements: the callback is
  scheduled, the flag stays set and the timer stays pending, and when it then elapses the
  process is aborted. Both are evaluated here on the endpoint of the example.
\<close>

theorem ReadAction_leaves_watchdog_pending:
  "(let r = ReadAction None (Delivers (replicate 10 1)) (final (CFStreamDestroy reading))
    in fault_of r = Some UseAfterFree \<and>
       ep_mem (final r) = None \<and>
       filter is_callback (new_events reading r) = [ClosureSched 9 None] \<and>
       TimerCancel \<notin> set (new_events reading r) \<and>
       pending_timer (final r) = Some 61000) \<and>
   (let r = ReadAction (Some stream_failed) (Delivers []) reading
    in fault_of r = None \<and>
       filter is_callback (new_events reading r) = [ClosureSched 9 (Some stream_failed)] \<and>
       TimerCancel \<notin> set (new_events reading r) \<and>
       map_option timer_armed (ep_mem (final r)) = Some True \<and>
       pending_timer (final r) = Some 61000 \<and>
       fault_of (timer_elapses 4194304 (Delivers []) (final r)) = Some ProcessAbort)"
proof -
  let ?w = "reading\<lparr>ep_mem := Some (reading_ep\<lparr>refcount := 1\<rparr>),
                     trace := trace reading @ [Unref ''destroy'']\<rparr>"
  have 1: "ReadAction None (Delivers (replicate 10 1)) ?w =
    watchdog_tail (after_unref ''read''
      (reading_ep\<lparr>refcount := 1, total_bytes_read := 0 + of_nat 10, read_cb := None,
                   read_slices := None\<rparr>)
      (?w\<lparr>bufs := (bufs ?w)(5 := [take 10 (replicate 10 1)]),
         ep_mem := Some (reading_ep\<lparr>refcount := 1, total_bytes_read := 0 + of_nat 10,
                            read_cb := None, read_slices := None\<rparr>),
         trace := trace ?w @ [ReadStreamRead 1 (length (replicate 64 (0 :: byte))) (int 10),
           Store (W_total_bytes_read (0 + of_nat 10)),
           Store (W_read_cb None), Store (W_read_slices None), ClosureSched 9 None]\<rparr>))"
    using ReadAction_delivers [of ?w "reading_ep\<lparr>refcount := 1\<rparr>" 9 5 "replicate 64 0" 10
        "replicate 10 1"]
    by (simp add: reading_ep_simps reading_simps)
  have 2: "ReadAction (Some stream_failed) (Delivers []) reading =
    Return (after_unref ''read'' (reading_ep\<lparr>read_cb := None, read_slices := None\<rparr>)
      (reading\<lparr>bufs := (bufs reading)(5 := []),
         ep_mem := Some (reading_ep\<lparr>read_cb := None, read_slices := None\<rparr>),
         trace := trace reading @ [Store (W_read_cb None), Store (W_read_slices None),
                             ClosureSched 9 (Some stream_failed)]\<rparr>))"
    by (rule ReadAction_error [OF reading_live reading_ep_simps(1) reading_ep_simps(2)])
  have first: "let r = ReadAction None (Delivers (replicate 10 1)) (final (CFStreamDestroy reading))
    in fault_of r = Some UseAfterFree \<and>
       ep_mem (final r) = None \<and>
       filter is_callback (new_events reading r) = [ClosureSched 9 None] \<and>
       TimerCancel \<notin> set (new_events reading r) \<and>
       pending_timer (final r) = Some 61000"
    unfolding Destroy_reading final.simps 1 Let_def
    by (simp add: watchdog_tail_def after_unref_def reading_ep_simps reading_simps
          free_events_def new_events_def)
  have second: "let r = ReadAction (Some stream_failed) (Delivers []) reading
    in fault_of r = None \<and>
       filter is_callback (new_events reading r) = [ClosureSched 9 (Some stream_failed)] \<and>
       TimerCancel \<notin> set (new_events reading r) \<and>
       map_option timer_armed (ep_mem (final r)) = Some True \<and>
       pending_timer (final r) = Some 61000 \<and>
       fault_of (timer_elapses 4194304 (Delivers []) (final r)) = Some ProcessAbort"
    unfolding 2 Let_def
    by (simp add: after_unref_def reading_ep_simps reading_simps new_events_def
          timer_elapses_def err_cb_fired)
  show ?thesis
    using first second by simp
qed

subsection \<open>C6: who holds a reference\<close>

text \<open>
  \<open>balance reason\<close> is the number of references taken with a reason and not yet released,
  read off the trace. \<open>refs_ok\<close> says: the endpoint's count is the owner's reference (until
  \<open>CFStreamDestroy\<close>) plus the outstanding "read" and "write" references; a "read"
  reference is outstanding exactly while a read callback is pending, and a "write"
  reference exactly while a write callback is pending; the count of an allocated endpoint
  is positive; and a freed endpoint has been destroyed by its owner and has no "read" or
  "write" reference outstanding. Every call keeps this, \<open>CFStreamDestroy\<close> when it is called
  for the first time.
\<close>

lemma count_no_refs:
  assumes "filter is_ref_event evs = []"
  shows "count_list evs (Ref r) = 0" and "count_list evs (Unref r) = 0"
proof -
  have "\<forall>ev \<in> set evs. \<not> is_ref_event ev"
    using assms by (simp add: filter_empty_conv)
  then have "Ref r \<notin> set evs" and "Unref r \<notin> set evs"
    by auto
  then show "count_list evs (Ref r) = 0" and "count_list evs (Unref r) = 0"
    by (simp_all add: count_list_0_iff)
qed

lemma refs_watchdog_tail:
  assumes "refs_ok w"
  shows "refs_ok (final (watchdog_tail w))" and "destroys (final (watchdog_tail w)) = destroys w"
  using assms
  by (auto simp: watchdog_tail_def refs_ok_def balance_def destroys_def split: option.splits)

lemma refs_read_done:
  assumes "refs_ok w" "ep_mem w = Some ep" "read_cb ep = Some cb"
    "filter is_ref_event evs = []"
    "refcount ep1 = refcount ep" "read_cb ep1 = None" "read_slices ep1 = None"
    "write_cb ep1 = write_cb ep"
  shows "refs_ok (after_unref ''read'' ep1
           (w\<lparr>bufs := b, ep_mem := Some ep1, trace := trace w @ evs\<rparr>))"
    and "destroys (after_unref ''read'' ep1
           (w\<lparr>bufs := b, ep_mem := Some ep1, trace := trace w @ evs\<rparr>)) = destroys w"
  using assms(1-3,5-8) count_no_refs [OF assms(4)]
  by (auto simp: refs_ok_def balance_def destroys_def after_unref_def free_events_def
        split: if_splits)

lemma refs_write_done:
  assumes "refs_ok w" "ep_mem w = Some ep" "write_cb ep = Some cb"
    "filter is_ref_event evs = []"
    "refcount ep1 = refcount ep" "write_cb ep1 = None"
    "read_cb ep1 = read_cb ep" "read_slices ep1 = read_slices ep"
  shows "refs_ok (after_unref ''write'' ep1
           (w\<lparr>bufs := b, ep_mem := Some ep1, trace := trace w @ evs\<rparr>))"
    and "destroys (after_unref ''write'' ep1
           (w\<lparr>bufs := b, ep_mem := Some ep1, trace := trace w @ evs\<rparr>)) = destroys w"
  using assms(1-3,5-8) count_no_refs [OF assms(4)]
  by (auto simp: refs_ok_def balance_def destroys_def after_unref_def free_events_def
        split: if_splits)

lemma refs_ReadAction:
  assumes "refs_ok w"
  shows "refs_ok (final (ReadAction error transport w)) \<and>
         destroys (final (ReadAction error transport w)) = destroys w"
proof (cases "ep_mem w")
  case None
  then show ?thesis using assms by (simp add: ReadAction_freed)
next
  case (Some ep)
  note live = Some
  show ?thesis
  proof (cases "read_cb ep")
    case None
    then show ?thesis using assms by (simp add: ReadAction_idle [OF live])
  next
    case cb: (Some cb)
    show ?thesis
    proof (cases "read_slices ep")
      case None
      then show ?thesis using assms by (simp add: ReadAction_null [OF live cb])
    next
      case sb: (Some sb)
      show ?thesis
      proof (cases error)
        case (Some err)
        show ?thesis
          unfolding Some ReadAction_error [OF live cb sb] final.simps
          by (rule conjI; rule refs_read_done [OF assms live cb]) simp_all
      next
        case None
        show ?thesis
        proof (cases "length (bufs w sb) = 1")
          case False
          then show ?thesis
            using assms by (simp add: None ReadAction_count [OF live cb sb])
        next
          case True
          then obtain slc where slc: "bufs w sb = [slc]"
            by (cases "bufs w sb") auto
          have *: "refs_ok (after_unref ''read'' ep1
                     (w\<lparr>bufs := b, ep_mem := Some ep1, trace := trace w @ evs\<rparr>)) \<and>
                   destroys (after_unref ''read'' ep1
                     (w\<lparr>bufs := b, ep_mem := Some ep1, trace := trace w @ evs\<rparr>)) = destroys w"
            if "filter is_ref_event evs = []" "refcount ep1 = refcount ep" "read_cb ep1 = None"
              "read_slices ep1 = None" "write_cb ep1 = write_cb ep" for ep1 b evs
            using refs_read_done [OF assms live cb that] by simp
          show ?thesis
            unfolding None ReadAction_transfer [OF live cb sb slc refl] Let_def
            by (rule conjI [OF refs_watchdog_tail(1) [OF * [THEN conjunct1]]
                  trans [OF refs_watchdog_tail(2) [OF * [THEN conjunct1]] * [THEN conjunct2]]])
               simp_all
        qed
      qed
    qed
  qed
qed

lemma refs_WriteAction:
  assumes "refs_ok w"
  shows "refs_ok (final (WriteAction error transport w)) \<and>
         destroys (final (WriteAction error transport w)) = destroys w"
proof (cases "ep_mem w")
  case None
  then show ?thesis using assms by (simp add: WriteAction_freed)
next
  case (Some ep)
  note live = Some
  show ?thesis
  proof (cases "write_cb ep")
    case None
    then show ?thesis using assms by (simp add: WriteAction_idle [OF live])
  next
    case cb: (Some cb)
    show ?thesis
    proof (cases "write_slices ep")
      case None
      then show ?thesis using assms by (simp add: WriteAction_null [OF live cb])
    next
      case sb: (Some sb)
      have finished: "refs_ok (after_unref ''write'' ep1
                     (w\<lparr>bufs := b, ep_mem := Some ep1, trace := trace w @ evs\<rparr>)) \<and>
                   destroys (after_unref ''write'' ep1
                     (w\<lparr>bufs := b, ep_mem := Some ep1, trace := trace w @ evs\<rparr>)) = destroys w"
        if "filter is_ref_event evs = []" "refcount ep1 = refcount ep" "write_cb ep1 = None"
          "read_cb ep1 = read_cb ep" "read_slices ep1 = read_slices ep" for ep1 b evs
        using refs_write_done [OF assms live cb that] by simp
      show ?thesis
      proof (cases error)
        case (Some err)
        show ?thesis
          unfolding Some WriteAction_error [OF live cb sb] final.simps
          by (rule finished) simp_all
      next
        case None
        show ?thesis
        proof (cases "bufs w sb")
          case Nil
          then show ?thesis
            using assms by (simp add: None WriteAction_empty [OF live cb sb])
        next
          case (Cons slc rest)
          define n where "n = CFWriteStreamWrite transport (length slc)"
          define remaining where
            "remaining = (if n < int (length slc) then drop (nat n) slc # rest else rest)"
          note eq = WriteAction_transfer [OF live cb sb Cons n_def, unfolded Let_def,
              folded remaining_def]
          have failed: "refs_ok (after_unref ''write'' (ep\<lparr>write_cb := None, write_slices := None\<rparr>)
                (w\<lparr>bufs := b, ep_mem := Some (ep\<lparr>write_cb := None, write_slices := None\<rparr>),
                   trace := trace w @ [WriteStreamWrite (write_stream ep) slc m,
                     Store (W_write_cb None), Store (W_write_slices None),
                     ClosureSched cb e]\<rparr>)) \<and>
              destroys (after_unref ''write'' (ep\<lparr>write_cb := None, write_slices := None\<rparr>)
                (w\<lparr>bufs := b, ep_mem := Some (ep\<lparr>write_cb := None, write_slices := None\<rparr>),
                   trace := trace w @ [WriteStreamWrite (write_stream ep) slc m,
                     Store (W_write_cb None), Store (W_write_slices None),
                     ClosureSched cb e]\<rparr>)) = destroys w" for b e m
            by (rule finished) simp_all
          have again: "refs_ok (w\<lparr>bufs := b,
                   trace := trace w @ [WriteStreamWrite (write_stream ep) slc m,
                     NotifyOnWrite]\<rparr>) \<and>
                destroys (w\<lparr>bufs := b,
                   trace := trace w @ [WriteStreamWrite (write_stream ep) slc m,
                     NotifyOnWrite]\<rparr>) = destroys w" for b m
            using assms live by (simp add: refs_ok_def balance_def destroys_def)
          show ?thesis
            unfolding None eq
            by (cases "n = - 1"; cases "0 < slice_buffer_length remaining")
               (simp_all only: if_True if_False final.simps final_traced failed again refl
                  not_False_eq_True if_cancel simp_thms)
        qed
      qed
    qed
  qed
qed

lemma refs_AllocationDone:
  assumes "refs_ok w"
  shows "refs_ok (final (CFStreamReadAllocationDone error w)) \<and>
         destroys (final (CFStreamReadAllocationDone error w)) = destroys w"
proof (cases "ep_mem w")
  case None
  then show ?thesis using assms by (simp add: AllocationDone_freed)
next
  case (Some ep)
  note live = Some
  show ?thesis
  proof (cases error)
    case None
    then show ?thesis
      using assms live
      by (simp add: AllocationDone_granted [OF live] refs_ok_def balance_def destroys_def)
  next
    case (Some err)
    show ?thesis
    proof (cases "read_slices ep")
      case None
      then show ?thesis using assms by (simp add: Some AllocationDone_null [OF live])
    next
      case sb: (Some sb)
      then obtain cb where cb: "read_cb ep = Some cb"
        using assms live by (cases "read_cb ep") (auto simp: refs_ok_def)
      show ?thesis
        unfolding Some AllocationDone_failed [OF live sb] final.simps cb option.case
        by (rule conjI; rule refs_read_done [OF assms live cb]) simp_all
    qed
  qed
qed

lemma refs_CFStreamRead:
  assumes "refs_ok w"
  shows "refs_ok (final (CFStreamRead sz now slices cb w)) \<and>
         destroys (final (CFStreamRead sz now slices cb w)) = destroys w"
proof (cases "ep_mem w")
  case None
  then show ?thesis using assms by (simp add: CFStreamRead_freed)
next
  case (Some ep)
  show ?thesis
  proof (cases "read_cb ep")
    case None
    then show ?thesis
      using assms Some
      by (simp add: CFStreamRead_issued [OF Some] refs_ok_def balance_def destroys_def)
  next
    case (Some cb')
    then show ?thesis
      using assms \<open>ep_mem w = Some ep\<close>
      by (simp add: CFStreamRead_busy [OF \<open>ep_mem w = Some ep\<close>] armed_world_def refs_ok_def
            balance_def destroys_def)
  qed
qed

lemma refs_CFStreamWrite:
  assumes "refs_ok w"
  shows "refs_ok (final (CFStreamWrite slices cb w)) \<and>
         destroys (final (CFStreamWrite slices cb w)) = destroys w"
proof (cases "ep_mem w")
  case None
  then show ?thesis using assms by (simp add: CFStreamWrite_freed)
next
  case (Some ep)
  show ?thesis
  proof (cases "write_cb ep")
    case None
    then show ?thesis
      using assms Some
      by (simp add: CFStreamWrite_issued [OF Some] refs_ok_def balance_def destroys_def)
  next
    case (Some cb')
    then show ?thesis
      using assms by (simp add: CFStreamWrite_busy [OF \<open>ep_mem w = Some ep\<close>])
  qed
qed

lemma refs_CFStreamShutdown:
  assumes "refs_ok w"
  shows "refs_ok (final (CFStreamShutdown why w)) \<and>
         destroys (final (CFStreamShutdown why w)) = destroys w"
proof (cases "ep_mem w")
  case None
  then show ?thesis using assms by (simp add: CFStreamShutdown_freed)
next
  case (Some ep)
  then show ?thesis
    using assms by (simp add: CFStreamShutdown_live [OF Some] refs_ok_def balance_def destroys_def)
qed

lemma refs_err_cb:
  assumes "refs_ok w"
  shows "refs_ok (final (err_cb max_recv error transport w)) \<and>
         destroys (final (err_cb max_recv error transport w)) = destroys w"
proof (cases error)
  case (Some err)
  then show ?thesis using assms by (simp add: err_cb_cancelled)
next
  case None
  show ?thesis
  proof (cases "ep_mem w")
    case None
    then show ?thesis using assms by (simp add: \<open>error = None\<close> err_cb_freed)
  next
    case (Some ep)
    then show ?thesis
      using assms
      by (simp add: \<open>error = None\<close> err_cb_fired [OF Some] refs_ok_def balance_def destroys_def
            del: CFReadStreamRead.simps)
  qed
qed

lemma refs_CFStreamDestroy:
  assumes "refs_ok w" "destroys w = 0"
  shows "refs_ok (final (CFStreamDestroy w)) \<and> destroys (final (CFStreamDestroy w)) \<le> 1"
proof (cases "ep_mem w")
  case None
  then show ?thesis using assms by (simp add: CFStreamDestroy_def CFStreamUnref_eq)
next
  case (Some ep)
  then show ?thesis
    using assms
    by (auto simp: CFStreamDestroy_def CFStreamUnref_eq after_unref_def free_events_def
          refs_ok_def balance_def destroys_def split: if_splits)
qed

lemma refs_step:
  assumes "refs_ok w" "destroys w + (if is_Destroy x then 1 else 0) \<le> 1"
  shows "refs_ok (final (step x w)) \<and>
         destroys (final (step x w)) \<le> destroys w + (if is_Destroy x then 1 else 0)"
proof (cases x)
  case (Read sz now slices cb)
  then show ?thesis using refs_CFStreamRead [OF assms(1), of sz now slices cb]
    by (simp add: is_Destroy_def)
next
  case (Write slices cb)
  then show ?thesis using refs_CFStreamWrite [OF assms(1), of slices cb]
    by (simp add: is_Destroy_def)
next
  case (AllocationDone error)
  then show ?thesis using refs_AllocationDone [OF assms(1), of error]
    by (simp add: is_Destroy_def)
next
  case (Readable error transport)
  then show ?thesis using refs_ReadAction [OF assms(1), of error transport]
    by (simp add: is_Destroy_def)
next
  case (Writable error transport)
  then show ?thesis using refs_WriteAction [OF assms(1), of error transport]
    by (simp add: is_Destroy_def)
next
  case (TimerCallback max_recv error transport)
  then show ?thesis using refs_err_cb [OF assms(1), of max_recv error transport]
    by (simp add: is_Destroy_def)
next
  case (Shutdown why)
  then show ?thesis using refs_CFStreamShutdown [OF assms(1), of why]
    by (simp add: is_Destroy_def)
next
  case Destroy
  then have "destroys w = 0" using assms(2) by (simp add: is_Destroy_def)
  then show ?thesis using refs_CFStreamDestroy [OF assms(1)] Destroy
    by (simp add: is_Destroy_def)
next
  case (Fill p sb)
  then show ?thesis using assms(1)
    by (auto simp: is_Destroy_def set_buf_def refs_ok_def balance_def destroys_def
          split: option.splits)
qed

lemma refs_run:
  assumes "refs_ok w" "destroys w + length (filter is_Destroy ops) \<le> 1"
  shows "refs_ok (final (run ops w))"
  using assms
proof (induction ops arbitrary: w)
  case Nil
  then show ?case by simp
next
  case (Cons x xs)
  have pre: "destroys w + (if is_Destroy x then 1 else 0) \<le> 1"
    using Cons.prems(2) by (simp split: if_splits)
  note st = refs_step [OF Cons.prems(1) pre]
  show ?case
  proof (cases "step x w")
    case (Return w')
    have "refs_ok w'" using st Return by simp
    moreover have "destroys w' + length (filter is_Destroy xs) \<le> 1"
      using st Return Cons.prems(2) by (simp split: if_splits)
    ultimately have "refs_ok (final (run xs w'))"
      by (rule Cons.IH)
    then show ?thesis using Return by simp
  next
    case (Fault f w')
    then show ?thesis using st by simp
  qed
qed

lemma refs_created:
  assumes "filter is_ref_event (trace w) = []"
  shows "refs_ok (final (grpc_cfstream_endpoint_create rs ws peer q sync w))"
    and "destroys (final (grpc_cfstream_endpoint_create rs ws peer q sync w)) = 0"
  using count_no_refs [OF assms]
  by (simp_all add: grpc_cfstream_endpoint_create_def refs_ok_def balance_def destroys_def)

text \<open>
  C6 (as amended). The continuations of a read (the buffer grant callback, then the
  readable notification) run under one reference, taken by \<open>CFStreamRead\<close> in the call that
  issues the request and released once, by the branch that schedules the read's callback;
  the writable notification likewise runs under the reference taken by \<open>CFStreamWrite\<close>; the
  watchdog's callback holds no reference. In every history of calls after the creation
  in which the owner destroys the endpoint at most once, the endpoint's count is the
  owner's reference plus one for the pending read and one for the pending write, and the
  endpoint is not freed while a read or a write reference is outstanding, also after
  \<open>CFStreamDestroy\<close>.
\<close>

theorem operations_hold_the_references:
  assumes "filter is_ref_event (trace w) = []" "length (filter is_Destroy ops) \<le> 1"
  shows "refs_ok (final (run ops (final (grpc_cfstream_endpoint_create rs ws peer q sync w)))) \<and>
         (ep_mem (final (run ops (final (grpc_cfstream_endpoint_create rs ws peer q sync w)))) = None
          \<longrightarrow> balance ''read'' (final (run ops (final (grpc_cfstream_endpoint_create rs ws peer q sync w)))) = 0 \<and>
              balance ''write'' (final (run ops (final (grpc_cfstream_endpoint_create rs ws peer q sync w)))) = 0)"
proof -
  have "refs_ok (final (run ops (final (grpc_cfstream_endpoint_create rs ws peer q sync w))))"
    by (rule refs_run [OF refs_created(1) [OF assms(1)]])
       (use assms(2) in \<open>simp add: refs_created(2) [OF assms(1)]\<close>)
  then show ?thesis
    by (auto simp: refs_ok_def)
qed

theorem operations_hold_the_references_witness:
  "refs_ok (final (run [Read 64 1000 5 9, Write 6 11, Destroy, AllocationDone (Some stream_failed),
     Writable (Some stream_failed) (Accepts 0)] connected))"
  using operations_hold_the_references [of fresh_world
      "[Read 64 1000 5 9, Write 6 11, Destroy, AllocationDone (Some stream_failed),
        Writable (Some stream_failed) (Accepts 0)]" 1 2 "\<lparr>addr = 7, chars = ''peer''\<rparr>" 3 4]
  by (simp add: connected_def fresh_world_def is_Destroy_def)

text \<open>
  The claim as stated fails for the watchdog. \<open>CFStreamRead\<close> issues two requests, the buffer
  grant and the timer, and takes one reference, for the read. When the read is completed by
  a failed grant and the owner destroys the endpoint, the endpoint is freed while the
  timer is pending; the timer's callback then runs on freed memory.
\<close>

theorem watchdog_holds_no_reference_counterexample:
  "(let w1 = final (run [Read 64 1000 5 9] connected)
    in filter is_ref_event (new_events connected (Return w1)) = [Ref ''read''] \<and>
       map_option refcount (ep_mem w1) = Some 2 \<and>
       pending_timer w1 = Some 61000) \<and>
   (let w2 = final (run [Read 64 1000 5 9, AllocationDone (Some stream_failed), Destroy] connected)
    in ep_mem w2 = None \<and>
       pending_timer w2 = Some 61000 \<and>
       fault_of (timer_elapses 4194304 (Delivers []) w2) = Some UseAfterFree)"
proof -
  have idle: "read_cb peer_ep = None"
    by (simp add: peer_ep_def)
  have 1: "CFStreamRead 64 1000 5 9 connected = Return (connected\<lparr>
      bufs := (bufs connected)(5 := []),
      ep_mem := Some reading_ep,
      pending_timer := Some 61000,
      trace := trace connected @ [MuLock, TimerInit 61000, Store (W_timer_armed True),
         MuUnlock, Store (W_read_cb (Some 9)), Store (W_read_slices (Some 5)),
         ResourceUserAllocSlices 64 1 5, Ref ''read'']\<rparr>)"
    by (simp add: CFStreamRead_issued [OF connected_live idle] reading_ep_def peer_ep_def)
  show ?thesis
    by (simp add: 1 AllocationDone_failed [of _ reading_ep 5] reading_ep_simps
          after_unref_def new_events_def timer_elapses_def err_cb_freed Let_def
          CFStreamDestroy_def CFStreamUnref_eq free_events_def)
qed

subsection \<open>C7: shutdown\<close>

text \<open>
  C7. \<open>CFStreamShutdown\<close> on an allocated endpoint returns; it cancels the timer and clears
  the armed flag exactly when the flag was set, between locking and unlocking the mutex;
  then it closes the read stream and the write stream, forwards the reason to the stream
  handle and shuts the resource user down. The reference count and every other field of
  the endpoint, the buffers and the allocations are as before: nothing is released or
  freed.
\<close>

theorem CFStreamShutdown_effect:
  assumes "ep_mem w = Some ep"
  shows "CFStreamShutdown why w = Return (w\<lparr>
      ep_mem := Some (ep\<lparr>timer_armed := False\<rparr>),
      pending_timer := (if timer_armed ep then None else pending_timer w),
      trace := trace w @ MuLock #
        (if timer_armed ep then [TimerCancel, Store (W_timer_armed False)] else []) @
        [MuUnlock, ReadStreamClose (read_stream ep), WriteStreamClose (write_stream ep),
         HandleShutdown why, ResourceUserShutdown (resource_user ep)]\<rparr>)"
  using assms by (rule CFStreamShutdown_live)

theorem CFStreamShutdown_effect_witness:
  "ep_mem reading = Some (peer_ep\<lparr>timer_armed := True, read_cb := Some 9, read_slices := Some 5,
                            refcount := 2\<rparr>) \<and>
   CFStreamShutdown None reading = Return (reading\<lparr>
      ep_mem := Some (peer_ep\<lparr>timer_armed := False, read_cb := Some 9, read_slices := Some 5,
                            refcount := 2\<rparr>),
      pending_timer := None,
      trace := trace reading @
        [MuLock, TimerCancel, Store (W_timer_armed False), MuUnlock, ReadStreamClose 1,
         WriteStreamClose 2, HandleShutdown None,
         ResourceUserShutdown \<lparr>quota = 3, user_name = ''peer''\<rparr>]\<rparr>)"
proof -
  have live: "ep_mem reading = Some (peer_ep\<lparr>timer_armed := True, read_cb := Some 9,
      read_slices := Some 5, refcount := 2\<rparr>)"
    by (simp add: reading_eq)
  show ?thesis
    using CFStreamShutdown_effect [OF live, of None] live by (simp add: peer_ep_def)
qed

subsection \<open>C8: arming the watchdog, and what it does when it fires\<close>





subsection \<open>C9: creation and destruction\<close>

text \<open>
  C9. \<open>grpc_cfstream_endpoint_create\<close> returns an endpoint with reference count 1, the
  watchdog flag clear, the byte counter 0 and all four slots null; it retains both streams,
  takes a reference on the stream handle, creates the resource user for the quota, and
  stores a copy of the peer string: the same characters at an address that is neither the
  caller's string nor any other allocation. \<open>CFStreamDestroy\<close> is \<open>EP_UNREF\<close> and nothing
  else: the count goes down by one, and the endpoint is freed (resource user, both streams,
  stream handle, peer string, endpoint) exactly when the count was 1, that is when it
  reaches zero.
\<close>

theorem create_holds_one_reference_destroy_releases_it:
  "grpc_cfstream_endpoint_create rs ws peer q sync w = Return (w\<lparr>
      ep_mem := Some \<lparr>
        refcount = 1, read_stream = rs, write_stream = ws, stream_sync = sync,
        read_cb = None, write_cb = None, read_slices = None, write_slices = None,
        peer_string = \<lparr>addr = fresh_addr (addr peer # allocated w), chars = chars peer\<rparr>,
        resource_user = \<lparr>quota = q, user_name = chars peer\<rparr>,
        timer_armed = False, total_bytes_read = 0\<rparr>,
      allocated := fresh_addr (addr peer # allocated w) # allocated w,
      trace := trace w @ [CFRetain rs, CFRetain ws, HandleRef sync,
                          ResourceUserCreate \<lparr>quota = q, user_name = chars peer\<rparr>]\<rparr>) \<and>
   fresh_addr (addr peer # allocated w) \<noteq> addr peer \<and>
   fresh_addr (addr peer # allocated w) \<notin> set (allocated w) \<and>
   CFStreamDestroy w' = CFStreamUnref ''destroy'' w' \<and>
   CFStreamDestroy w' =
     (case ep_mem w' of
        None \<Rightarrow> Fault UseAfterFree w'
      | Some ep \<Rightarrow> Return
          (if refcount ep = 1
           then w'\<lparr>ep_mem := None,
                   allocated := removeAll (addr (peer_string ep)) (allocated w'),
                   trace := trace w' @ [Unref ''destroy'', ResourceUserUnref (resource_user ep),
                     CFRelease (read_stream ep), CFRelease (write_stream ep),
                     HandleUnref (stream_sync ep)]\<rparr>
           else w'\<lparr>ep_mem := Some (ep\<lparr>refcount := refcount ep - 1\<rparr>),
                   trace := trace w' @ [Unref ''destroy'']\<rparr>))"
proof -
  have "fresh_addr (addr peer # allocated w) \<notin> set (addr peer # allocated w)"
    by (rule fresh_addr_new)
  then show ?thesis
    by (simp add: grpc_cfstream_endpoint_create_def gpr_strdup_def grpc_resource_user_create_def
          CFStreamDestroy_def CFStreamUnref_eq after_unref_def free_events_def
          split: option.splits)
qed

theorem create_holds_one_reference_destroy_releases_it_witness:
  "grpc_cfstream_endpoint_create 1 2 \<lparr>addr = 7, chars = ''peer''\<rparr> 3 4 fresh_world =
     Return connected \<and>
   map_option refcount (ep_mem connected) = Some 1 \<and>
   map_option (addr \<circ> peer_string) (ep_mem connected) = Some 8 \<and>
   CFStreamDestroy connected = Return (connected\<lparr>ep_mem := None, allocated := [7],
     trace := trace connected @ [Unref ''destroy'',
       ResourceUserUnref \<lparr>quota = 3, user_name = ''peer''\<rparr>, CFRelease 1, CFRelease 2,
       HandleUnref 4]\<rparr>) \<and>
   CFStreamDestroy reading = Return (reading\<lparr>ep_mem := Some (reading_ep\<lparr>refcount := 1\<rparr>),
     trace := trace reading @ [Unref ''destroy'']\<rparr>)"
proof -
  note connected_case = create_holds_one_reference_destroy_releases_it
      [of 1 2 "\<lparr>addr = 7, chars = ''peer''\<rparr>" 3 4 fresh_world connected]
  note reading_case = create_holds_one_reference_destroy_releases_it
      [of 1 2 "\<lparr>addr = 7, chars = ''peer''\<rparr>" 3 4 fresh_world reading]
  have created: "grpc_cfstream_endpoint_create 1 2 \<lparr>addr = 7, chars = ''peer''\<rparr> 3 4 fresh_world =
     Return connected"
    using connected_case [THEN conjunct1]
    by (simp add: connected_eq peer_ep_def fresh_world_def fresh_addr_def)
  have destroyed: "CFStreamDestroy connected = Return (connected\<lparr>ep_mem := None,
     allocated := [7],
     trace := trace connected @ [Unref ''destroy'',
       ResourceUserUnref \<lparr>quota = 3, user_name = ''peer''\<rparr>, CFRelease 1, CFRelease 2,
       HandleUnref 4]\<rparr>)"
    using connected_case [THEN conjunct2, THEN conjunct2, THEN conjunct2, THEN conjunct2]
    by (simp add: connected_eq peer_ep_def)
  have released: "CFStreamDestroy reading = Return (reading\<lparr>
     ep_mem := Some (reading_ep\<lparr>refcount := 1\<rparr>),
     trace := trace reading @ [Unref ''destroy'']\<rparr>)"
    using reading_case [THEN conjunct2, THEN conjunct2, THEN conjunct2, THEN conjunct2]
    by (simp add: reading_live reading_ep_simps)
  show ?thesis
    using created destroyed released by (simp add: connected_eq peer_ep_def)
qed

subsection \<open>C10: the callback of a cancelled watchdog\<close>

text \<open>
  Whenever a deadline is pending the armed flag is set: this holds for a new endpoint and
  in every world a history of calls returns.
\<close>

lemma flag_after_unref:
  assumes "timer_armed ep1 \<or> pending_timer w1 = None"
  shows "flag_ok (after_unref reason ep1 w1)"
  using assms by (simp add: flag_ok_def after_unref_def)

lemma flag_watchdog_tail: "flag_ok w \<Longrightarrow> flag_ok (final (watchdog_tail w))"
  by (auto simp: flag_ok_def watchdog_tail_def split: option.splits)

lemma flag_ReadAction:
  assumes "flag_ok w"
  shows "flag_ok (final (ReadAction error transport w))"
proof (cases "ep_mem w")
  case None
  then show ?thesis using assms by (simp add: ReadAction_freed)
next
  case (Some ep)
  note live = Some
  show ?thesis
  proof (cases "read_cb ep")
    case None
    then show ?thesis using assms by (simp add: ReadAction_idle [OF live])
  next
    case cb: (Some cb)
    show ?thesis
    proof (cases "read_slices ep")
      case None
      then show ?thesis using assms by (simp add: ReadAction_null [OF live cb])
    next
      case sb: (Some sb)
      show ?thesis
      proof (cases error)
        case (Some err)
        show ?thesis
          unfolding Some ReadAction_error [OF live cb sb] final.simps
          by (rule flag_after_unref) (use assms live in \<open>simp add: flag_ok_def\<close>)
      next
        case None
        show ?thesis
        proof (cases "length (bufs w sb) = 1")
          case False
          then show ?thesis
            using assms by (simp add: None ReadAction_count [OF live cb sb])
        next
          case True
          then obtain slc where slc: "bufs w sb = [slc]"
            by (cases "bufs w sb") auto
          show ?thesis
            unfolding None ReadAction_transfer [OF live cb sb slc refl] Let_def
            by (rule flag_watchdog_tail, rule flag_after_unref)
               (use assms live in \<open>simp add: flag_ok_def\<close>)
        qed
      qed
    qed
  qed
qed

lemma flag_WriteAction:
  assumes "flag_ok w"
  shows "flag_ok (final (WriteAction error transport w))"
proof (cases "ep_mem w")
  case None
  then show ?thesis using assms by (simp add: WriteAction_freed)
next
  case (Some ep)
  note live = Some
  have armed: "timer_armed ep \<or> pending_timer w = None"
    using assms live by (simp add: flag_ok_def)
  show ?thesis
  proof (cases "write_cb ep")
    case None
    then show ?thesis using assms by (simp add: WriteAction_idle [OF live])
  next
    case cb: (Some cb)
    show ?thesis
    proof (cases "write_slices ep")
      case None
      then show ?thesis using assms by (simp add: WriteAction_null [OF live cb])
    next
      case sb: (Some sb)
      show ?thesis
      proof (cases error)
        case (Some err)
        show ?thesis
          unfolding Some WriteAction_error [OF live cb sb] final.simps
          by (rule flag_after_unref) (use armed in simp)
      next
        case None
        show ?thesis
        proof (cases "bufs w sb")
          case Nil
          then show ?thesis
            using assms by (simp add: None WriteAction_empty [OF live cb sb])
        next
          case (Cons slc rest)
          define n where "n = CFWriteStreamWrite transport (length slc)"
          define remaining where
            "remaining = (if n < int (length slc) then drop (nat n) slc # rest else rest)"
          note eq = WriteAction_transfer [OF live cb sb Cons n_def, unfolded Let_def,
              folded remaining_def]
          have finished: "flag_ok (after_unref ''write'' (ep\<lparr>write_cb := None, write_slices := None\<rparr>)
                (w\<lparr>bufs := b, ep_mem := Some (ep\<lparr>write_cb := None, write_slices := None\<rparr>),
                   trace := trace w @ evs\<rparr>))" for b evs
            by (rule flag_after_unref) (use armed in simp)
          have again: "flag_ok (w\<lparr>bufs := b, trace := trace w @ evs\<rparr>)" for b evs
            using armed live by (simp add: flag_ok_def)
          show ?thesis
            unfolding None eq
            by (cases "n = - 1"; cases "0 < slice_buffer_length remaining")
               (simp_all only: if_True if_False final.simps final_traced finished again refl
                  not_False_eq_True if_cancel simp_thms)
        qed
      qed
    qed
  qed
qed

lemma flag_step:
  assumes "flag_ok w" "step x w = Return w'"
  shows "flag_ok w'"
proof (cases "ep_mem w")
  case None
  then have "ep_mem (final (step x w)) = None"
    by (cases x; cases "case x of TimerCallback m e t \<Rightarrow> e | _ \<Rightarrow> None")
       (simp_all add: CFStreamRead_freed CFStreamWrite_freed AllocationDone_freed ReadAction_freed
          WriteAction_freed err_cb_freed err_cb_cancelled CFStreamShutdown_freed
          CFStreamDestroy_def CFStreamUnref_eq set_buf_def)
  then show ?thesis
    using assms(2) by (simp add: flag_ok_def)
next
  case (Some ep)
  note live = Some
  have armed: "timer_armed ep \<or> pending_timer w = None"
    using assms live by (simp add: flag_ok_def)
  show ?thesis
  proof (cases x)
    case (Read sz now slices cb)
    then show ?thesis
      using assms(2) armed
      by (cases "read_cb ep")
         (auto simp: CFStreamRead_issued [OF live] CFStreamRead_busy [OF live] flag_ok_def)
  next
    case (Write slices cb)
    then show ?thesis
      using assms(2) armed
      by (cases "write_cb ep")
         (auto simp: CFStreamWrite_issued [OF live] CFStreamWrite_busy [OF live] flag_ok_def)
  next
    case (AllocationDone error)
    show ?thesis
    proof (cases error)
      case None
      then show ?thesis
        using assms(2) armed live AllocationDone
        by (auto simp: AllocationDone_granted [OF live] flag_ok_def)
    next
      case (Some err)
      show ?thesis
      proof (cases "read_slices ep")
        case None
        then show ?thesis
          using assms(2) AllocationDone Some by (simp add: AllocationDone_null [OF live])
      next
        case sb: (Some sb)
        have "flag_ok (after_unref ''read'' (ep\<lparr>read_cb := None, read_slices := None\<rparr>)
             (w\<lparr>bufs := b, ep_mem := Some (ep\<lparr>read_cb := None, read_slices := None\<rparr>),
                trace := trace w @ evs\<rparr>))" for b evs
          by (rule flag_after_unref) (use armed in simp)
        then show ?thesis
          using assms(2) AllocationDone Some by (auto simp: AllocationDone_failed [OF live sb])
      qed
    qed
  next
    case (Readable error transport)
    then show ?thesis
      using flag_ReadAction [OF assms(1), of error transport] assms(2) by simp
  next
    case (Writable error transport)
    then show ?thesis
      using flag_WriteAction [OF assms(1), of error transport] assms(2) by simp
  next
    case (TimerCallback max_recv error transport)
    then show ?thesis
      using assms
      by (cases error) (auto simp: err_cb_fired [OF live] err_cb_cancelled)
  next
    case (Shutdown why)
    then show ?thesis
      using assms(2) armed by (auto simp: CFStreamShutdown_live [OF live] flag_ok_def)
  next
    case Destroy
    have "flag_ok (after_unref ''destroy'' ep w)"
      by (rule flag_after_unref) (rule armed)
    then show ?thesis
      using assms(2) Destroy by (auto simp: CFStreamDestroy_def CFStreamUnref_eq live)
  next
    case (Fill p sb)
    then show ?thesis
      using assms(2) armed live by (auto simp: set_buf_def flag_ok_def)
  qed
qed

lemma flag_run:
  assumes "flag_ok w" "run ops w = Return w'"
  shows "flag_ok w'"
  using assms
proof (induction ops arbitrary: w)
  case Nil
  then show ?case by simp
next
  case (Cons x xs)
  show ?case
  proof (cases "step x w")
    case (Return w1)
    have "flag_ok w1" by (rule flag_step [OF Cons.prems(1) Return])
    moreover have "run xs w1 = Return w'" using Cons.prems(2) Return by simp
    ultimately show ?thesis by (rule Cons.IH)
  next
    case (Fault f w1)
    then show ?thesis using Cons.prems(2) by simp
  qed
qed

lemma flag_created:
  "pending_timer w = None \<Longrightarrow>
   flag_ok (final (grpc_cfstream_endpoint_create rs ws peer q sync w))"
  by (simp add: grpc_cfstream_endpoint_create_def flag_ok_def)





end
